theory Spec2Isabelle
  imports Main "HOL-Library.Multiset" "HOL-Library.Char_ord" "HOL-Library.List_Lexorder"
begin

section \<open>Book Distiller: the section workflow of \<^verbatim>\<open>src/lib/pages/book-distiller/index.tsx\<close>\<close>

text \<open>
  The component \<^verbatim>\<open>BookDistiller\<close> keeps its state in React state variables and in an
  IndexedDB database (Dexie). This theory embeds the functions of the component that
  decide the generation workflow: \<^verbatim>\<open>parseHeading\<close>, the memoised \<^verbatim>\<open>accepted\<close> and
  \<^verbatim>\<open>stitched\<close>, \<^verbatim>\<open>clearRun\<close>, \<^verbatim>\<open>undoLast\<close>, \<^verbatim>\<open>updateSectionLocal\<close>, \<^verbatim>\<open>generateNext\<close>,
  \<^verbatim>\<open>accept\<close>, \<^verbatim>\<open>discard\<close>, \<^verbatim>\<open>edit\<close>, and the click handlers of the footer buttons.

  JavaScript strings are modelled as \<^typ>\<open>string\<close>; a character stands for one code unit
  below 256.
\<close>

subsection \<open>Strings\<close>

text \<open>
  White space as \<^verbatim>\<open>String.prototype.trim\<close> and the regular expression class \<^verbatim>\<open>\s\<close> read
  it (tab, line feed, vertical tab, form feed, carriage return, space, no-break space),
  and the line terminators that \<^verbatim>\<open>.\<close>, \<^verbatim>\<open>^\<close> and \<^verbatim>\<open>$\<close> respect.
\<close>

definition is_ws :: "char \<Rightarrow> bool" where
  "is_ws c = (c = CHR 0x09 \<or> c = CHR 0x0A \<or> c = CHR 0x0B \<or> c = CHR 0x0C \<or> c = CHR 0x0D
              \<or> c = CHR 0x20 \<or> c = CHR 0xA0)"

definition is_lt :: "char \<Rightarrow> bool" where
  "is_lt c = (c = CHR 0x0A \<or> c = CHR 0x0D)"

text \<open>\<^verbatim>\<open>s.trim()\<close>\<close>

definition trim :: "string \<Rightarrow> string" where
  "trim s = rev (dropWhile is_ws (rev (dropWhile is_ws s)))"

text \<open>\<^verbatim>\<open>s.includes(t)\<close>: \<^verbatim>\<open>t\<close> occurs in \<^verbatim>\<open>s\<close> as a contiguous run (case-sensitive).\<close>

fun str_includes :: "string \<Rightarrow> string \<Rightarrow> bool" where
  "str_includes [] t = (t = [])"
| "str_includes (c # cs) t = (take (length t) (c # cs) = t \<or> str_includes cs t)"

text \<open>\<^verbatim>\<open>xs.join(sep)\<close>\<close>

fun join :: "string \<Rightarrow> string list \<Rightarrow> string" where
  "join sep [] = []"
| "join sep [x] = x"
| "join sep (x # y # ys) = x @ sep @ join sep (y # ys)"

text \<open>The separator of the history and of the export: \<^verbatim>\<open>'\n\n'\<close>, a blank line.\<close>

definition blank_line :: string where
  "blank_line = [CHR 0x0A, CHR 0x0A]"

subsection \<open>\<^verbatim>\<open>parseHeading\<close>\<close>

text \<open>
  \<^verbatim>\<open>md.match(/^#\s+(.+)$/m)\<close>. \<^verbatim>\<open>heading_here s\<close> matches \<^verbatim>\<open>#\s+(.+)$\<close> at the start of
  \<^verbatim>\<open>s\<close> and returns the captured group: after the \<^verbatim>\<open>#\<close>, \<^verbatim>\<open>\s+\<close> takes the longest run of
  white space (\<open>k\<close> characters) and gives characters back one at a time; with \<open>j\<close>
  characters taken (\<open>k \<ge> j \<ge> 1\<close>), \<^verbatim>\<open>(.+)$\<close> succeeds exactly when a character that is
  not a line terminator follows, and captures up to the end of that line.
  \<^verbatim>\<open>heading_match\<close> tries the positions of \<^verbatim>\<open>md\<close> from left to right; \<^verbatim>\<open>^\<close> holds at the
  start and after a line terminator.
\<close>

definition heading_here :: "string \<Rightarrow> string option" where
  "heading_here s =
     (case s of
        [] \<Rightarrow> None
      | c # rest \<Rightarrow>
          if c \<noteq> CHR ''#'' then None
          else
            let k = length (takeWhile is_ws rest) in
            (case filter (\<lambda>j. j < length rest \<and> \<not> is_lt (rest ! j)) (rev [1..<Suc k]) of
               [] \<Rightarrow> None
             | j # _ \<Rightarrow> Some (takeWhile (\<lambda>d. \<not> is_lt d) (drop j rest))))"

fun heading_match :: "bool \<Rightarrow> string \<Rightarrow> string option" where
  "heading_match line_start [] = None"
| "heading_match line_start (c # cs) =
     (case (if line_start then heading_here (c # cs) else None) of
        Some cap \<Rightarrow> Some cap
      | None \<Rightarrow> heading_match (is_lt c) cs)"

text \<open>\<^verbatim>\<open>line.replace(/^#+\s*/, '')\<close>\<close>

definition strip_hashes :: "string \<Rightarrow> string" where
  "strip_hashes line =
     (case line of
        [] \<Rightarrow> []
      | c # _ \<Rightarrow>
          if c = CHR ''#'' then dropWhile is_ws (dropWhile (\<lambda>d. d = CHR ''#'') line)
          else line)"

definition parseHeading :: "string \<Rightarrow> string" where
  "parseHeading md =
     (case heading_match True md of
        Some cap \<Rightarrow> trim cap
      | None \<Rightarrow>
          (let first_line = takeWhile (\<lambda>d. d \<noteq> CHR 0x0A) md;
               cut = take 120 (strip_hashes first_line)
           in if cut = [] then ''Untitled'' else cut))"

subsection \<open>Sections\<close>

datatype status = Draft | Accepted | Discarded

text \<open>
  A row of the table \<^verbatim>\<open>sections\<close> (and an element of the state variable \<^verbatim>\<open>sections\<close>).
  The fields \<^verbatim>\<open>id\<close> and \<^verbatim>\<open>bookId\<close> carry the suffix \<open>_s\<close>.
\<close>

record section_row =
  id_s :: string
  bookId_s :: string
  content :: string
  heading :: string
  status :: status
  order :: nat

text \<open>
  The memoised values
  \<^verbatim>\<open>accepted = sections.filter(s => s.status === 'accepted').sort((a, b) => a.order - b.order)\<close>
  and \<^verbatim>\<open>stitched = accepted.map(s => s.content).join('\n\n')\<close>.
  \<^verbatim>\<open>Array.prototype.sort\<close> is stable, as \<^const>\<open>sort_key\<close> is.
\<close>

definition accepted :: "section_row list \<Rightarrow> section_row list" where
  "accepted secs = sort_key order (filter (\<lambda>s. status s = Accepted) secs)"


text \<open>
  The history of a request, \<^verbatim>\<open>(acceptedOverride ?? accepted).map(s => s.content).join('\n\n')\<close>.
\<close>

definition history :: "section_row list option \<Rightarrow> section_row list \<Rightarrow> string" where
  "history acceptedOverride secs =
     join blank_line (map content
       (case acceptedOverride of None \<Rightarrow> accepted secs | Some ov \<Rightarrow> ov))"

subsection \<open>The table \<^verbatim>\<open>sections\<close> of the database\<close>

text \<open>
  The Dexie table is keyed by \<^verbatim>\<open>id\<close>; it is a list of rows with distinct keys in key
  order, the order in which IndexedDB iterates them. Reads and writes of the table are
  taken to succeed.
\<close>

text \<open>\<^verbatim>\<open>db.sections.put(row)\<close>: insert, or replace the row of the same key.\<close>

definition db_put :: "section_row \<Rightarrow> section_row list \<Rightarrow> section_row list" where
  "db_put row tbl = insort_key id_s row (filter (\<lambda>x. id_s x \<noteq> id_s row) tbl)"

text \<open>\<^verbatim>\<open>db.sections.delete(key)\<close>\<close>

definition db_delete :: "string \<Rightarrow> section_row list \<Rightarrow> section_row list" where
  "db_delete key tbl = filter (\<lambda>x. id_s x \<noteq> key) tbl"

text \<open>
  \<^verbatim>\<open>db.sections.where({ bookId }).sortBy('order')\<close>: the rows of the book, sorted by
  \<^verbatim>\<open>order\<close> (a stable sort of the rows in key order).
\<close>

definition db_where_sortBy :: "string \<Rightarrow> section_row list \<Rightarrow> section_row list" where
  "db_where_sortBy b tbl = sort_key order (filter (\<lambda>x. bookId_s x = b) tbl)"

text \<open>
  The argument of \<^verbatim>\<open>updateSectionLocal\<close>: an \<^verbatim>\<open>id\<close> and the optional fields \<^verbatim>\<open>content\<close>,
  \<^verbatim>\<open>heading\<close> and \<^verbatim>\<open>status\<close>.
\<close>

record update =
  upd_id :: string
  upd_content :: "string option"
  upd_heading :: "string option"
  upd_status :: "status option"

text \<open>
  \<^verbatim>\<open>{ ...s, ...upd, heading: upd.heading ?? parseHeading(upd.content ?? s.content) }\<close>:
  the element of the state variable after the update.
\<close>

definition merge_update :: "update \<Rightarrow> section_row \<Rightarrow> section_row" where
  "merge_update upd s =
     s\<lparr> id_s := upd_id upd,
        content := (case upd_content upd of Some c \<Rightarrow> c | None \<Rightarrow> content s),
        status := (case upd_status upd of Some v \<Rightarrow> v | None \<Rightarrow> status s),
        heading := (case upd_heading upd of
                      Some h \<Rightarrow> h
                    | None \<Rightarrow> parseHeading
                        (case upd_content upd of Some c \<Rightarrow> c | None \<Rightarrow> content s)) \<rparr>"

text \<open>
  \<^verbatim>\<open>db.sections.update(upd.id, upd)\<close>: the row of that key gets the fields that \<^verbatim>\<open>upd\<close>
  has; no heading is computed for it.
\<close>

definition db_update :: "update \<Rightarrow> section_row list \<Rightarrow> section_row list" where
  "db_update upd tbl =
     map (\<lambda>x. if id_s x = upd_id upd
               then x\<lparr> content := (case upd_content upd of Some c \<Rightarrow> c | None \<Rightarrow> content x),
                       heading := (case upd_heading upd of Some h \<Rightarrow> h | None \<Rightarrow> heading x),
                       status := (case upd_status upd of Some v \<Rightarrow> v | None \<Rightarrow> status x) \<rparr>
               else x) tbl"

subsection \<open>The state of the component\<close>

text \<open>
  The React state variables of \<^verbatim>\<open>BookDistiller\<close> (with \<^verbatim>\<open>currentApiKey\<close>, which is
  \<^verbatim>\<open>apiKeys[provider] || ''\<close>), and the table \<^verbatim>\<open>db.sections\<close>.

  A function of the component is a closure of one render: it reads the state variables
  as that render bound them (\<^verbatim>\<open>const [shouldStop, setShouldStop] = useState(false)\<close>), also
  after an \<^verbatim>\<open>await\<close> or inside a \<^verbatim>\<open>setTimeout\<close> callback, while a setter (\<^verbatim>\<open>setIsBusy\<close>,
  \<^verbatim>\<open>setSections(prev => ...)\<close>) and the database act on the current state. The functions
  below therefore take two states: \<open>r\<close>, the state as the render of the closure captured
  it, from which the state variables are read, and \<open>st\<close>, the current state, which the
  setters and the database calls change. The field \<open>db_sections\<close> is read from \<open>st\<close> only. For a
  handler that runs on the latest render, \<open>r\<close> is \<open>st\<close>.
\<close>

record state =
  bookId :: string
  title :: string
  author :: string
  bookText :: string
  prompt :: string
  provider :: string
  model :: string
  currentApiKey :: string
  autoAdvance :: bool
  maxSections :: int
  stopToken :: string
  isBusy :: bool
  shouldStop :: bool
  sections :: "section_row list"
  db_sections :: "section_row list"

subsection \<open>\<^verbatim>\<open>clearRun\<close>, \<^verbatim>\<open>undoLast\<close>, \<^verbatim>\<open>updateSectionLocal\<close>\<close>

definition clearRun :: "state \<Rightarrow> state \<Rightarrow> state" where
  "clearRun r st =
     (if bookId r = [] then st
      else st\<lparr> sections := [], db_sections := filter (\<lambda>x. bookId_s x \<noteq> bookId r) (db_sections st) \<rparr>)"

text \<open>\<^verbatim>\<open>xs.findIndex(p)\<close>, with \<open>None\<close> for \<^verbatim>\<open>-1\<close>.\<close>

fun findIndex :: "('a \<Rightarrow> bool) \<Rightarrow> 'a list \<Rightarrow> nat option" where
  "findIndex p [] = None"
| "findIndex p (x # xs) = (if p x then Some 0 else map_option Suc (findIndex p xs))"

definition undoLast :: "state \<Rightarrow> state \<Rightarrow> state" where
  "undoLast r st =
     (if bookId r = [] then st
      else
        let prev = sections st in
        (case findIndex (\<lambda>s. status s = Accepted) (rev prev) of
           None \<Rightarrow> st
         | Some i \<Rightarrow>
             let idx = length prev - 1 - i;
                 popped = prev ! idx
             in st\<lparr> sections := take idx prev @ drop (Suc idx) prev,
                     db_sections := db_delete (id_s popped) (db_sections st) \<rparr>))"

definition updateSectionLocal :: "update \<Rightarrow> state \<Rightarrow> state" where
  "updateSectionLocal upd st =
     st\<lparr> sections := map (\<lambda>s. if id_s s = upd_id upd then merge_update upd s else s) (sections st),
         db_sections := db_update upd (db_sections st) \<rparr>"

subsection \<open>\<^verbatim>\<open>generateNext\<close>\<close>

text \<open>The arguments of a provider call (\<^verbatim>\<open>callOpenAI\<close>, \<^verbatim>\<open>callAnthropic\<close>, \<^verbatim>\<open>callGemini\<close>).\<close>

record request =
  req_provider :: string
  req_apiKey :: string
  req_model :: string
  req_system :: string
  req_user :: string

text \<open>
  What a provider call comes back with: the text, or the error it throws
  (\<^verbatim>\<open>if (!res.ok) throw new Error(...)\<close>, a rejected \<^verbatim>\<open>fetch\<close>).
\<close>

datatype reply = Completed string | ProviderError string

text \<open>
  What an invocation did: an alert for a missing precondition, the pre-flight stop, a
  request sent to the provider (the function is then suspended at its \<^verbatim>\<open>await\<close>), an
  error thrown before any request, a continuation check that returned at its stop test,
  a continuation check that turned auto-advance off, or a click on a disabled button.
\<close>

datatype outcome =
    Refused string
  | Cancelled
  | Requested request
  | Threw string
  | Aborted
  | Halted
  | Disabled

fun is_request :: "outcome \<Rightarrow> bool" where
  "is_request (Requested req) = True"
| "is_request other = False"

definition nl :: string where
  "nl = [CHR 0x0A]"

text \<open>\<^verbatim>\<open>x || '(unknown)'\<close>\<close>

definition or_unknown :: "string \<Rightarrow> string" where
  "or_unknown x = (if x = [] then ''(unknown)'' else x)"

text \<open>The template of the user message.\<close>

definition user_prompt :: "state \<Rightarrow> string \<Rightarrow> string" where
  "user_prompt r hist =
     ''Book Title: '' @ or_unknown (title r) @ nl @
     ''Author: '' @ or_unknown (author r) @ nl @ nl @
     ''Full book text (or extract):'' @ nl @
     take 100000 (bookText r) @ nl @ nl @
     ''Previously accepted sections (for continuity):'' @ nl @
     hist @ nl @ nl @
     ''Generate the next section according to the protocol above. Then end if appropriate with the stop token: ''
     @ stopToken r"

text \<open>
  \<^verbatim>\<open>generateNext\<close> from its entry to the \<^verbatim>\<open>await\<close> of the provider call (lines 435 to 469).
  With a provider other than the three, the \<^verbatim>\<open>throw\<close> is caught, and \<^verbatim>\<open>finally\<close> runs.
\<close>

definition generateNext_begin ::
    "state \<Rightarrow> section_row list option \<Rightarrow> state \<Rightarrow> state \<times> outcome" where
  "generateNext_begin r acceptedOverride st =
     (if bookId r = [] then (st, Refused ''Upload a book first'')
      else if currentApiKey r = [] then (st, Refused ''Paste your API key (stored locally)'')
      else if shouldStop r then (st\<lparr> shouldStop := False \<rparr>, Cancelled)
      else
        let st1 = st\<lparr> isBusy := True \<rparr>;
            hist = history acceptedOverride (sections r);
            system = prompt r;
            user = user_prompt r hist
        in if provider r = ''openai'' \<or> provider r = ''anthropic'' \<or> provider r = ''google''
           then (st1, Requested \<lparr> req_provider = provider r, req_apiKey = currentApiKey r,
                                   req_model = model r, req_system = system, req_user = user \<rparr>)
           else (st1\<lparr> isBusy := False, shouldStop := False \<rparr>, Threw ''Unsupported provider''))"

text \<open>
  A pending \<^verbatim>\<open>setTimeout\<close> callback: the one \<^verbatim>\<open>generateNext\<close> sets (500 ms), with the
  render of its closure and the value of \<^verbatim>\<open>hasStopToken\<close> computed before the timer was
  set, or the one \<^verbatim>\<open>accept\<close> sets (200 ms), with the render of its closure.
\<close>

datatype timer = AfterGenerate state bool | AfterAccept state

text \<open>
  \<^verbatim>\<open>generateNext\<close> from the return of the provider call to its end (lines 471 to 528):
  \<open>new_id\<close> is the value of \<^verbatim>\<open>crypto.randomUUID()\<close>. The result is the state and the timer
  that was set, if one was.
\<close>

definition generateNext_settle ::
    "state \<Rightarrow> string \<Rightarrow> reply \<Rightarrow> state \<Rightarrow> state \<times> timer option" where
  "generateNext_settle r new_id rep st =
     (case rep of
        ProviderError e \<Rightarrow> (st\<lparr> isBusy := False, shouldStop := False \<rparr>, None)
      | Completed text \<Rightarrow>
          let ord = length (sections r) + 1;
              isFirstSection = (length (sections r) = 0);
              sectionStatus = (if autoAdvance r \<and> \<not> isFirstSection then Accepted else Draft);
              sec = \<lparr> id_s = new_id, bookId_s = bookId r, content = trim text,
                      heading = parseHeading text, status = sectionStatus, order = ord \<rparr>;
              st1 = st\<lparr> sections := sections st @ [sec],
                         db_sections := db_put sec (db_sections st) \<rparr>;
              tm = (if autoAdvance r \<and> \<not> isFirstSection \<and> \<not> shouldStop r
                    then Some (AfterGenerate r (str_includes (trim text) (stopToken r)))
                    else None)
          in (st1\<lparr> isBusy := False, shouldStop := False \<rparr>, tm))"

text \<open>
  The rest of an invocation whose beginning had the outcome \<open>out\<close>: if a request was
  sent, its reply is settled.
\<close>

definition finish ::
    "state \<Rightarrow> string \<Rightarrow> reply \<Rightarrow> state \<times> outcome \<Rightarrow> state \<times> timer option" where
  "finish r new_id rep begun =
     (case snd begun of
        Requested req \<Rightarrow> generateNext_settle r new_id rep (fst begun)
      | _ \<Rightarrow> (fst begun, None))"

text \<open>A whole invocation of \<^verbatim>\<open>generateNext\<close>, with nothing else happening before the reply.\<close>

definition generateNext ::
    "state \<Rightarrow> section_row list option \<Rightarrow> string \<Rightarrow> reply \<Rightarrow> state \<Rightarrow> state \<times> timer option" where
  "generateNext r acceptedOverride new_id rep st =
     finish r new_id rep (generateNext_begin r acceptedOverride st)"

text \<open>
  The callback of the timer of \<^verbatim>\<open>generateNext\<close> (lines 495 to 520), run on the current
  state \<open>st\<close>, up to the \<^verbatim>\<open>await\<close> of the provider call of the invocation it makes.
\<close>

definition check_after_generate :: "state \<Rightarrow> bool \<Rightarrow> state \<Rightarrow> state \<times> outcome" where
  "check_after_generate r hasStopToken st =
     (if shouldStop r then (st, Aborted)
      else
        let currentSections = db_where_sortBy (bookId r) (db_sections st);
            acceptedCount = length (filter (\<lambda>s. status s = Accepted) currentSections)
        in if \<not> hasStopToken \<and> int acceptedCount < maxSections r
           then generateNext_begin r None st
           else (st\<lparr> autoAdvance := False \<rparr>, Halted))"

subsection \<open>\<^verbatim>\<open>accept\<close>, \<^verbatim>\<open>discard\<close>, \<^verbatim>\<open>edit\<close>\<close>

definition accept :: "state \<Rightarrow> string \<Rightarrow> state \<Rightarrow> state \<times> timer option" where
  "accept r i st =
     (let st1 = updateSectionLocal
                  \<lparr> upd_id = i, upd_content = None, upd_heading = None,
                    upd_status = Some Accepted \<rparr> st
      in (st1, if autoAdvance r \<and> \<not> isBusy r \<and> \<not> shouldStop r then Some (AfterAccept r) else None))"

text \<open>The callback of the timer of \<^verbatim>\<open>accept\<close> (lines 537 to 572).\<close>

definition check_after_accept :: "state \<Rightarrow> state \<Rightarrow> state \<times> outcome" where
  "check_after_accept r st =
     (if shouldStop r then (st, Aborted)
      else
        let currentSections = db_where_sortBy (bookId r) (db_sections st);
            acceptedSections = sort_key order (filter (\<lambda>s. status s = Accepted) currentSections);
            acceptedCount = length acceptedSections
        in if currentSections \<noteq> []
              \<and> \<not> str_includes (content (last currentSections)) (stopToken r)
              \<and> int acceptedCount < maxSections r
           then generateNext_begin r (Some acceptedSections) st
           else (st\<lparr> autoAdvance := False \<rparr>, Halted))"

definition fire :: "timer \<Rightarrow> state \<Rightarrow> state \<times> outcome" where
  "fire tm st =
     (case tm of
        AfterGenerate r hasStopToken \<Rightarrow> check_after_generate r hasStopToken st
      | AfterAccept r \<Rightarrow> check_after_accept r st)"

definition discard :: "string \<Rightarrow> state \<Rightarrow> state" where
  "discard i st =
     updateSectionLocal
       \<lparr> upd_id = i, upd_content = None, upd_heading = None, upd_status = Some Discarded \<rparr> st"

definition edit :: "string \<Rightarrow> string \<Rightarrow> state \<Rightarrow> state" where
  "edit i text st =
     updateSectionLocal
       \<lparr> upd_id = i, upd_content = Some text, upd_heading = None, upd_status = None \<rparr> st"

subsection \<open>The buttons\<close>

text \<open>
  The buttons \<^verbatim>\<open>Start\<close>/\<^verbatim>\<open>Next\<close> and \<^verbatim>\<open>Auto advance\<close> carry \<^verbatim>\<open>disabled={isBusy}\<close>; their
  handlers are \<^verbatim>\<open>setAutoAdvance(false); generateNext()\<close> and
  \<^verbatim>\<open>setAutoAdvance(true); generateNext()\<close>. \<^verbatim>\<open>Stop Process\<close> is rendered when
  \<^verbatim>\<open>isBusy || autoAdvance\<close>. \<^verbatim>\<open>Accept\<close> and \<^verbatim>\<open>Discard\<close> are rendered for the sections of
  the render whose status is \<^verbatim>\<open>draft\<close>. A click on a button that is disabled or not
  rendered does nothing.
\<close>

definition click_next :: "state \<Rightarrow> state \<Rightarrow> state \<times> outcome" where
  "click_next r st =
     (if isBusy r then (st, Disabled)
      else generateNext_begin r None (st\<lparr> autoAdvance := False \<rparr>))"

definition click_auto :: "state \<Rightarrow> state \<Rightarrow> state \<times> outcome" where
  "click_auto r st =
     (if isBusy r then (st, Disabled)
      else generateNext_begin r None (st\<lparr> autoAdvance := True \<rparr>))"

definition click_stop :: "state \<Rightarrow> state \<Rightarrow> state" where
  "click_stop r st =
     (if isBusy r \<or> autoAdvance r then st\<lparr> shouldStop := True, autoAdvance := False \<rparr> else st)"

definition offered :: "state \<Rightarrow> string \<Rightarrow> bool" where
  "offered r i = (\<exists>s \<in> set (sections r). id_s s = i \<and> status s = Draft)"

definition click_accept :: "state \<Rightarrow> string \<Rightarrow> state \<Rightarrow> state \<times> timer option" where
  "click_accept r i st = (if offered r i then accept r i st else (st, None))"

definition click_discard :: "state \<Rightarrow> string \<Rightarrow> state \<Rightarrow> state" where
  "click_discard r i st = (if offered r i then discard i st else st)"

subsection \<open>Notions for the statements\<close>

text \<open>
  The preconditions under which \<^verbatim>\<open>generateNext\<close> reaches the provider call: a book, a
  key, no pending stop, and one of the three providers.
\<close>

definition ready :: "state \<Rightarrow> bool" where
  "ready r = (bookId r \<noteq> [] \<and> currentApiKey r \<noteq> [] \<and> \<not> shouldStop r
              \<and> (provider r = ''openai'' \<or> provider r = ''anthropic'' \<or> provider r = ''google''))"

text \<open>
  A run of clicks on \<^verbatim>\<open>Start\<close>/\<^verbatim>\<open>Next\<close>, each on the latest render and each answered
  (with \<^verbatim>\<open>new_id\<close> as the fresh identifier and \<^verbatim>\<open>text\<close> as the reply) before the next.
\<close>

fun next_clicks :: "(string \<times> string) list \<Rightarrow> state \<Rightarrow> state" where
  "next_clicks [] st = st"
| "next_clicks ((new_id, text) # rest) st =
     next_clicks rest (fst (finish st new_id (Completed text) (click_next st st)))"

text \<open>
  What a continuation check reads from the database when it runs on the state \<open>st\<close>:
  \<^verbatim>\<open>currentSections\<close> and \<^verbatim>\<open>acceptedCount\<close>.
\<close>

definition stored :: "state \<Rightarrow> state \<Rightarrow> section_row list" where
  "stored r st = db_where_sortBy (bookId r) (db_sections st)"

definition stored_accepted_count :: "state \<Rightarrow> state \<Rightarrow> nat" where
  "stored_accepted_count r st = length (filter (\<lambda>s. status s = Accepted) (stored r st))"

subsection \<open>Concrete sections and states\<close>

text \<open>A section of the book \<^verbatim>\<open>b1\<close> whose heading is its content.\<close>

definition sec :: "string \<Rightarrow> string \<Rightarrow> status \<Rightarrow> nat \<Rightarrow> section_row" where
  "sec i c v n = \<lparr> id_s = i, bookId_s = ''b1'', content = c, heading = c, status = v, order = n \<rparr>"

text \<open>Four sections of one book, in the order in which the list holds them.\<close>

definition sec_a :: section_row where
  "sec_a = \<lparr> id_s = ''a'', bookId_s = ''b1'', content = ''Alpha'', heading = ''Alpha'',
             status = Accepted, order = 2 \<rparr>"

definition sec_b :: section_row where
  "sec_b = \<lparr> id_s = ''b'', bookId_s = ''b1'', content = ''Beta'', heading = ''Beta'',
             status = Draft, order = 3 \<rparr>"

definition sec_c :: section_row where
  "sec_c = \<lparr> id_s = ''c'', bookId_s = ''b1'', content = ''Gamma'', heading = ''Gamma'',
             status = Accepted, order = 1 \<rparr>"

definition sec_d :: section_row where
  "sec_d = \<lparr> id_s = ''d'', bookId_s = ''b1'', content = ''Delta'', heading = ''Delta'',
             status = Discarded, order = 4 \<rparr>"

definition book0 :: state where
  "book0 = \<lparr> bookId = ''b1'', title = ''Walden'', author = [], bookText = ''I went to the woods'',
             prompt = ''Your Mission'', provider = ''openai'', model = ''gpt-4o-mini'',
             currentApiKey = ''key'', autoAdvance = False, maxSections = 12,
             stopToken = ''<end_of_book>'', isBusy = False, shouldStop = False,
             sections = [], db_sections = [] \<rparr>"

definition book0_busy :: state where
  "book0_busy = book0\<lparr> isBusy := True \<rparr>"

definition shelf :: state where
  "shelf = book0\<lparr> sections := [sec_a, sec_b, sec_c, sec_d],
                  db_sections := [sec_a, sec_b, sec_c, sec_d] \<rparr>"

text \<open>
  A click on \<^verbatim>\<open>Auto advance\<close> gives the first section, \<^verbatim>\<open>Clear run\<close> removes it, and a
  second click on \<^verbatim>\<open>Auto advance\<close> gives another section; each handler runs on the latest
  render.
\<close>

definition auto_first :: state where
  "auto_first = fst (finish book0 ''s1'' (Completed ''One'') (click_auto book0 book0))"

definition auto_cleared :: state where
  "auto_cleared = clearRun auto_first auto_first"

definition auto_second :: state where
  "auto_second = fst (finish auto_cleared ''s2'' (Completed ''Two'') (click_auto auto_cleared auto_cleared))"

text \<open>
  \<^verbatim>\<open>Start\<close> gives the first section, \<^verbatim>\<open>Accept\<close> accepts it, \<^verbatim>\<open>Undo last\<close> removes it, and
  \<^verbatim>\<open>Next\<close> gives another section.
\<close>

definition run_first :: state where
  "run_first = fst (finish book0 ''s1'' (Completed ''One'') (click_next book0 book0))"

definition run_accepted :: state where
  "run_accepted = fst (click_accept run_first ''s1'' run_first)"

definition run_undone :: state where
  "run_undone = undoLast run_accepted run_accepted"

definition run_second :: state where
  "run_second = fst (finish run_undone ''s2'' (Completed ''Two'') (click_next run_undone run_undone))"

text \<open>
  The same start, then a click on \<^verbatim>\<open>Auto advance\<close> whose request fails (auto-advance
  stays on), \<^verbatim>\<open>Undo last\<close>, and a second click on \<^verbatim>\<open>Auto advance\<close>.
\<close>

definition run_failed :: state where
  "run_failed = fst (finish run_accepted ''s2'' (ProviderError ''OpenAI error 429'')
                      (click_auto run_accepted run_accepted))"

definition run_failed_undone :: state where
  "run_failed_undone = undoLast run_failed run_failed"

definition run_again :: state where
  "run_again = fst (finish run_failed_undone ''s3'' (Completed ''Two'') (click_auto run_failed_undone run_failed_undone))"

text \<open>
  A render in auto-advance with one accepted section; the state while its request is in
  flight; the state after the reply \<^verbatim>\<open>Two\<close> was settled; that state after the user put
  the stop token into the stored content of the new section, after the user clicked
  \<^verbatim>\<open>Stop Process\<close>, and after the user clicked \<^verbatim>\<open>Next\<close>.
\<close>

definition one_accepted :: section_row where
  "one_accepted = \<lparr> id_s = ''s1'', bookId_s = ''b1'', content = ''One'', heading = ''One'',
                    status = Accepted, order = 1 \<rparr>"

definition auto1 :: state where
  "auto1 = book0\<lparr> autoAdvance := True, sections := [one_accepted], db_sections := [one_accepted] \<rparr>"

definition auto1_busy :: state where
  "auto1_busy = auto1\<lparr> isBusy := True \<rparr>"

definition auto1_max2 :: state where
  "auto1_max2 = auto1\<lparr> maxSections := 2 \<rparr>"

definition auto2 :: state where
  "auto2 = fst (generateNext_settle auto1 ''s0'' (Completed ''Two'') auto1_busy)"

definition auto2_edited :: state where
  "auto2_edited = edit ''s0'' ''Two <end_of_book>'' auto2"

definition auto2_stopped :: state where
  "auto2_stopped = click_stop auto2 auto2"

definition auto2_next :: state where
  "auto2_next = fst (click_next auto2 auto2)"

text \<open>
  A render in auto-advance with one draft section; the state after \<^verbatim>\<open>Accept\<close>; that state
  after the user put the stop token into the stored content, and after the user clicked
  \<^verbatim>\<open>Stop Process\<close>.
\<close>

definition draft1 :: state where
  "draft1 = book0\<lparr> autoAdvance := True,
                   sections := [one_accepted\<lparr> status := Draft \<rparr>],
                   db_sections := [one_accepted\<lparr> status := Draft \<rparr>] \<rparr>"

definition draft1_accepted :: state where
  "draft1_accepted = fst (accept draft1 ''s1'' draft1)"

definition draft1_edited :: state where
  "draft1_edited = edit ''s1'' ''One <end_of_book>'' draft1_accepted"

definition draft1_stopped :: state where
  "draft1_stopped = click_stop draft1_accepted draft1_accepted"

text \<open>
  After \<^verbatim>\<open>Accept\<close> on the draft, a click on \<^verbatim>\<open>Next\<close> while the timer of \<^verbatim>\<open>accept\<close> is
  pending; the state after that timer has run; and the state after both replies were
  settled, the one to \<^verbatim>\<open>Next\<close> first.
\<close>

definition draft1_next :: state where
  "draft1_next = fst (click_next draft1_accepted draft1_accepted)"

definition draft1_both :: state where
  "draft1_both = fst (fire (AfterAccept draft1) draft1_next)"

definition draft1_settled :: state where
  "draft1_settled
     = fst (generateNext_settle draft1 ''s3'' (Completed ''Three'')
             (fst (generateNext_settle draft1_accepted ''s2'' (Completed ''Two'') draft1_both)))"

text \<open>
  The states after a reply to a render in auto-advance was settled, with the maximum 2
  in the render and in the state, and with a reply that holds the stop token.
\<close>

definition auto2_max2 :: state where
  "auto2_max2 = fst (generateNext_settle auto1_max2 ''s0'' (Completed ''Two'')
                       (auto1_max2\<lparr> isBusy := True \<rparr>))"

definition auto2_final :: state where
  "auto2_final = fst (generateNext_settle auto1 ''s0'' (Completed ''final words <end_of_book>'')
                        auto1_busy)"

text \<open>
  \<^verbatim>\<open>Start\<close> and \<^verbatim>\<open>Accept\<close> as above, then \<^verbatim>\<open>Next\<close> gives a second section, a draft with
  the identifier \<^verbatim>\<open>s9\<close>; \<^verbatim>\<open>Undo last\<close> removes the accepted first section; a click on
  \<^verbatim>\<open>Auto advance\<close> gives a section with the identifier \<^verbatim>\<open>s5\<close> whose text holds the stop
  token; \<^verbatim>\<open>Accept\<close> accepts that section. Each handler runs on the latest render.
\<close>

definition tie_two :: state where
  "tie_two = fst (finish run_accepted ''s9'' (Completed ''Two'') (click_next run_accepted run_accepted))"

definition tie_undone :: state where
  "tie_undone = undoLast tie_two tie_two"

definition tie_auto :: state where
  "tie_auto = fst (finish tie_undone ''s5'' (Completed ''The end <end_of_book>'')
                     (click_auto tie_undone tie_undone))"

definition tie_accepted :: state where
  "tie_accepted = fst (click_accept tie_auto ''s5'' tie_auto)"

section \<open>Evaluation and shared lemmas\<close>

lemmas eval_defs = book0_def click_auto_def click_next_def generateNext_begin_def finish_def
  generateNext_settle_def clearRun_def undoLast_def Let_def db_put_def db_delete_def
  accept_def discard_def updateSectionLocal_def merge_update_def db_update_def
  click_accept_def click_discard_def offered_def

lemmas heading_defs = parseHeading_def heading_here_def strip_hashes_def trim_def is_ws_def is_lt_def

lemmas store_defs = stored_def stored_accepted_count_def db_where_sortBy_def

text \<open>\<^verbatim>\<open>generateNext\<close> sends a request exactly when its preconditions hold.\<close>

lemma begin_request_iff: "is_request (snd (generateNext_begin r ov st)) \<longleftrightarrow> ready r"
  by (auto simp: ready_def generateNext_begin_def Let_def)

text \<open>
  A timer that \<^verbatim>\<open>generateNext\<close> or \<^verbatim>\<open>accept\<close> has set carries the render of the closure,
  and in that render \<^verbatim>\<open>shouldStop\<close> is false.
\<close>

lemma settle_timer:
  assumes "generateNext_settle r new_id (Completed text) st0 = (st1, Some tm)"
  shows "tm = AfterGenerate r (str_includes (trim text) (stopToken r))"
    and "\<not> shouldStop r"
    and "content (last (sections st1)) = trim text"
  using assms by (auto simp: generateNext_settle_def Let_def split: if_splits)

lemma accept_timer:
  assumes "accept r i st0 = (st1, Some tm)"
  shows "tm = AfterAccept r" and "\<not> shouldStop r" and "autoAdvance r" and "\<not> isBusy r"
  using assms by (auto simp: accept_def Let_def split: if_splits)

lemma check_after_generate_eq:
  "\<not> shouldStop r \<Longrightarrow>
   check_after_generate r h st =
     (if \<not> h \<and> int (stored_accepted_count r st) < maxSections r
      then generateNext_begin r None st
      else (st\<lparr> autoAdvance := False \<rparr>, Halted))"
  by (simp add: check_after_generate_def stored_accepted_count_def stored_def Let_def)

lemma check_after_accept_eq:
  "\<not> shouldStop r \<Longrightarrow>
   check_after_accept r st =
     (if stored r st \<noteq> [] \<and> \<not> str_includes (content (last (stored r st))) (stopToken r)
         \<and> int (stored_accepted_count r st) < maxSections r
      then generateNext_begin r
             (Some (sort_key order (filter (\<lambda>s. status s = Accepted) (stored r st)))) st
      else (st\<lparr> autoAdvance := False \<rparr>, Halted))"
  by (simp add: check_after_accept_def stored_accepted_count_def stored_def Let_def)

subsection \<open>The concrete states, evaluated\<close>

lemma auto_first_eq:
  "auto_first = book0\<lparr> autoAdvance := True, sections := [sec ''s1'' ''One'' Draft 1],
                      db_sections := [sec ''s1'' ''One'' Draft 1] \<rparr>"
  by (simp add: auto_first_def sec_def eval_defs heading_defs)

lemma auto_cleared_eq: "auto_cleared = book0\<lparr> autoAdvance := True \<rparr>"
  by (simp add: auto_cleared_def auto_first_eq sec_def eval_defs)

lemma auto_second_eq:
  "auto_second = book0\<lparr> autoAdvance := True, sections := [sec ''s2'' ''Two'' Draft 1],
                       db_sections := [sec ''s2'' ''Two'' Draft 1] \<rparr>"
  by (simp add: auto_second_def auto_cleared_eq sec_def eval_defs heading_defs)

lemma run_first_eq:
  "run_first = book0\<lparr> sections := [sec ''s1'' ''One'' Draft 1],
                      db_sections := [sec ''s1'' ''One'' Draft 1] \<rparr>"
  by (simp add: run_first_def sec_def eval_defs heading_defs)

lemma run_accepted_eq:
  "run_accepted = book0\<lparr> sections := [sec ''s1'' ''One'' Accepted 1],
                         db_sections := [sec ''s1'' ''One'' Accepted 1] \<rparr>"
  by (simp add: run_accepted_def run_first_eq sec_def eval_defs heading_defs)

lemma run_undone_eq: "run_undone = book0"
  by (simp add: run_undone_def run_accepted_eq sec_def eval_defs)

lemma run_second_eq:
  "run_second = book0\<lparr> sections := [sec ''s2'' ''Two'' Draft 1],
                       db_sections := [sec ''s2'' ''Two'' Draft 1] \<rparr>"
  by (simp add: run_second_def run_undone_eq sec_def eval_defs heading_defs)

lemma run_failed_eq:
  "run_failed = book0\<lparr> autoAdvance := True, sections := [sec ''s1'' ''One'' Accepted 1],
                       db_sections := [sec ''s1'' ''One'' Accepted 1] \<rparr>"
  by (simp add: run_failed_def run_accepted_eq sec_def eval_defs)

lemma run_failed_undone_eq: "run_failed_undone = book0\<lparr> autoAdvance := True \<rparr>"
  by (simp add: run_failed_undone_def run_failed_eq sec_def eval_defs)

lemma run_again_eq:
  "run_again = book0\<lparr> autoAdvance := True, sections := [sec ''s3'' ''Two'' Draft 1],
                      db_sections := [sec ''s3'' ''Two'' Draft 1] \<rparr>"
  by (simp add: run_again_def run_failed_undone_eq sec_def eval_defs heading_defs)

lemma auto1_eq:
  "auto1 = book0\<lparr> autoAdvance := True, sections := [sec ''s1'' ''One'' Accepted 1],
                   db_sections := [sec ''s1'' ''One'' Accepted 1] \<rparr>"
  by (simp add: auto1_def one_accepted_def sec_def)

lemma draft1_eq:
  "draft1 = book0\<lparr> autoAdvance := True, sections := [sec ''s1'' ''One'' Draft 1],
                    db_sections := [sec ''s1'' ''One'' Draft 1] \<rparr>"
  by (simp add: draft1_def one_accepted_def sec_def)

lemma settle_auto1:
  "generateNext_settle auto1 ''s0'' (Completed ''Two'') auto1_busy
     = (auto1\<lparr> sections := [sec ''s1'' ''One'' Accepted 1, sec ''s0'' ''Two'' Accepted 2],
               db_sections := [sec ''s0'' ''Two'' Accepted 2, sec ''s1'' ''One'' Accepted 1] \<rparr>,
        Some (AfterGenerate auto1 False))"
  by (simp add: auto1_busy_def auto1_eq sec_def eval_defs heading_defs)

lemma settle_auto1_max2:
  "snd (generateNext_settle auto1_max2 ''s0'' (Completed ''Two'') auto1_busy)
     = Some (AfterGenerate auto1_max2 False)"
  by (simp add: auto1_max2_def auto1_busy_def auto1_eq sec_def eval_defs heading_defs)

lemma settle_auto1_token:
  "snd (generateNext_settle auto1 ''s0'' (Completed ''final words <end_of_book>'') auto1_busy)
     = Some (AfterGenerate auto1 True)"
  by (simp add: auto1_busy_def auto1_eq sec_def eval_defs heading_defs)

lemma auto2_eq:
  "auto2 = auto1\<lparr> sections := [sec ''s1'' ''One'' Accepted 1, sec ''s0'' ''Two'' Accepted 2],
                   db_sections := [sec ''s0'' ''Two'' Accepted 2, sec ''s1'' ''One'' Accepted 1] \<rparr>"
  by (simp add: auto2_def settle_auto1)

lemma auto2_edited_eq:
  "auto2_edited
     = auto1\<lparr> sections := [sec ''s1'' ''One'' Accepted 1, sec ''s0'' ''Two <end_of_book>'' Accepted 2],
               db_sections := [(sec ''s0'' ''Two <end_of_book>'' Accepted 2)\<lparr> heading := ''Two'' \<rparr>,
                               sec ''s1'' ''One'' Accepted 1] \<rparr>"
  by (simp add: auto2_edited_def auto2_eq auto1_eq sec_def edit_def eval_defs heading_defs)

lemma auto2_stopped_eq: "auto2_stopped = auto2\<lparr> shouldStop := True, autoAdvance := False \<rparr>"
  by (simp add: auto2_stopped_def click_stop_def auto2_eq auto1_eq book0_def)

lemma accept_draft1:
  "accept draft1 ''s1'' draft1 = (auto1, Some (AfterAccept draft1))"
  by (simp add: draft1_eq auto1_eq sec_def eval_defs heading_defs)

lemma draft1_accepted_eq: "draft1_accepted = auto1"
  by (simp add: draft1_accepted_def accept_draft1)

lemma draft1_edited_eq:
  "draft1_edited
     = auto1\<lparr> sections := [sec ''s1'' ''One <end_of_book>'' Accepted 1],
               db_sections := [(sec ''s1'' ''One <end_of_book>'' Accepted 1)\<lparr> heading := ''One'' \<rparr>] \<rparr>"
  by (simp add: draft1_edited_def draft1_accepted_eq auto1_eq sec_def edit_def eval_defs heading_defs)

lemma draft1_stopped_eq: "draft1_stopped = auto1\<lparr> shouldStop := True, autoAdvance := False \<rparr>"
  by (simp add: draft1_stopped_def draft1_accepted_eq click_stop_def auto1_eq book0_def)

lemma stored_auto2:
  "stored auto1 auto2 = [sec ''s1'' ''One'' Accepted 1, sec ''s0'' ''Two'' Accepted 2]"
  "stored auto1_max2 auto2 = [sec ''s1'' ''One'' Accepted 1, sec ''s0'' ''Two'' Accepted 2]"
  "stored auto1 auto2_stopped = [sec ''s1'' ''One'' Accepted 1, sec ''s0'' ''Two'' Accepted 2]"
  "stored auto1 auto2_edited
     = [sec ''s1'' ''One'' Accepted 1, (sec ''s0'' ''Two <end_of_book>'' Accepted 2)\<lparr> heading := ''Two'' \<rparr>]"
  by (simp_all add: store_defs auto2_eq auto2_edited_eq auto2_stopped_eq auto1_max2_def auto1_eq
      sec_def book0_def)

lemma stored_draft1:
  "stored draft1 auto1 = [sec ''s1'' ''One'' Accepted 1]"
  "stored draft1 draft1_stopped = [sec ''s1'' ''One'' Accepted 1]"
  "stored draft1 draft1_edited = [(sec ''s1'' ''One <end_of_book>'' Accepted 1)\<lparr> heading := ''One'' \<rparr>]"
  by (simp_all add: store_defs draft1_eq draft1_edited_eq draft1_stopped_eq auto1_eq sec_def book0_def)

lemma ready_examples:
  "ready book0" "ready auto1" "ready auto1_max2" "ready draft1" "ready book0_busy"
  by (simp_all add: ready_def auto1_eq auto1_max2_def draft1_eq book0_busy_def book0_def)

lemma example_tokens:
  "stopToken auto1 = ''<end_of_book>''" "stopToken draft1 = ''<end_of_book>''"
  by (simp_all add: auto1_eq draft1_eq book0_def)

lemma example_maxima: "maxSections auto1 = 12" "maxSections auto1_max2 = 2"
  by (simp_all add: auto1_eq auto1_max2_def book0_def)

lemma example_counts:
  "stored_accepted_count auto1 auto2 = 2" "stored_accepted_count auto1_max2 auto2 = 2"
  "stored_accepted_count auto1 auto2_edited = 2" "stored_accepted_count auto1 auto2_stopped = 2"
  by (simp_all add: stored_accepted_count_def stored_auto2 sec_def)

lemma fire_generate_examples:
  "is_request (snd (fire (AfterGenerate auto1 False) auto2))"
  "is_request (snd (fire (AfterGenerate auto1 False) auto2_edited))"
  "is_request (snd (fire (AfterGenerate auto1 False) auto2_stopped))"
  "isBusy (fst (fire (AfterGenerate auto1 False) auto2_stopped))"
  "fire (AfterGenerate auto1_max2 False) auto2 = (auto2\<lparr> autoAdvance := False \<rparr>, Halted)"
  "fire (AfterGenerate auto1 True) auto2 = (auto2\<lparr> autoAdvance := False \<rparr>, Halted)"
proof -
  have n: "\<not> shouldStop auto1" "\<not> shouldStop auto1_max2"
    by (simp_all add: auto1_eq auto1_max2_def book0_def)
  note c = example_counts and m = example_maxima
  show "is_request (snd (fire (AfterGenerate auto1 False) auto2))"
    "is_request (snd (fire (AfterGenerate auto1 False) auto2_edited))"
    "is_request (snd (fire (AfterGenerate auto1 False) auto2_stopped))"
    by (simp_all add: fire_def check_after_generate_eq n c m begin_request_iff ready_examples)
  show "isBusy (fst (fire (AfterGenerate auto1 False) auto2_stopped))"
    using ready_examples(2)
    by (simp add: fire_def check_after_generate_eq n c m generateNext_begin_def ready_def Let_def)
  show "fire (AfterGenerate auto1_max2 False) auto2 = (auto2\<lparr> autoAdvance := False \<rparr>, Halted)"
    "fire (AfterGenerate auto1 True) auto2 = (auto2\<lparr> autoAdvance := False \<rparr>, Halted)"
    by (simp_all add: fire_def check_after_generate_eq n c m)
qed

lemma fire_accept_examples:
  "is_request (snd (fire (AfterAccept draft1) auto1))"
  "is_request (snd (fire (AfterAccept draft1) draft1_stopped))"
  "fire (AfterAccept draft1) draft1_edited = (draft1_edited\<lparr> autoAdvance := False \<rparr>, Halted)"
proof -
  have n: "\<not> shouldStop draft1" "maxSections draft1 = 12"
    by (simp_all add: draft1_eq book0_def)
  have c: "stored_accepted_count draft1 auto1 = 1" "stored_accepted_count draft1 draft1_stopped = 1"
    "stored_accepted_count draft1 draft1_edited = 1"
    by (simp_all add: stored_accepted_count_def stored_draft1 sec_def)
  show "is_request (snd (fire (AfterAccept draft1) auto1))"
    "is_request (snd (fire (AfterAccept draft1) draft1_stopped))"
    by (simp_all add: fire_def check_after_accept_eq n c stored_draft1 sec_def begin_request_iff
        ready_examples example_tokens)
  show "fire (AfterAccept draft1) draft1_edited = (draft1_edited\<lparr> autoAdvance := False \<rparr>, Halted)"
    by (simp add: fire_def check_after_accept_eq n c stored_draft1 sec_def example_tokens)
qed

section \<open>The status of an appended section\<close>

text \<open>
  Claim C1, as stated, fails. The claim makes the appended section \<^verbatim>\<open>accepted\<close> whenever
  auto-advance is active and the section is not the first ever generated for the
  document. \<^verbatim>\<open>generateNext\<close> tests \<^verbatim>\<open>sections.length === 0\<close>: once the list is empty again,
  the next section is a draft. In the first run below, a section is generated, \<^verbatim>\<open>Clear
  run\<close> empties the list with auto-advance on, and the second section generated for the
  book is a draft. In the second run, the first section is generated and accepted, a
  click on \<^verbatim>\<open>Auto advance\<close> whose request fails leaves auto-advance on, \<^verbatim>\<open>Undo last\<close>
  removes the section, and the next section generated for the book is a draft.
\<close>

theorem first_section_again_counterexample:
  "map id_s (sections auto_first) = [''s1'']
   \<and> autoAdvance auto_cleared \<and> sections auto_cleared = []
   \<and> map id_s (sections auto_second) = [''s2'']
   \<and> map status (sections auto_second) = [Draft]
   \<and> autoAdvance auto_second
   \<and> map id_s (sections run_first) = [''s1'']
   \<and> map status (sections run_failed) = [Accepted]
   \<and> autoAdvance run_failed_undone \<and> sections run_failed_undone = []
   \<and> map id_s (sections run_again) = [''s3'']
   \<and> map status (sections run_again) = [Draft]
   \<and> autoAdvance run_again"
  by (simp add: auto_first_eq auto_cleared_eq auto_second_eq run_first_eq run_failed_eq run_failed_undone_eq
      run_again_eq sec_def book0_def)

text \<open>
  Claim C1, amended. Take an invocation of \<^verbatim>\<open>generateNext\<close> whose render agrees with the
  state at the time the reply is settled on the auto-advance flag and on whether the list
  of sections is empty. The section is appended to the list, and its status is
  \<^verbatim>\<open>accepted\<close> if and only if auto-advance is on and the list was not empty; otherwise it
  is \<^verbatim>\<open>draft\<close>. So the first section of an empty list is a draft, whatever was generated
  for the book before. The same section is put into the database. In particular this
  holds for a whole invocation on the latest render whose preconditions hold.
\<close>

theorem appended_status:
  "(autoAdvance r = autoAdvance st \<and> (sections r = [] \<longleftrightarrow> sections st = []) \<longrightarrow>
      butlast (sections (fst (generateNext_settle r new_id (Completed text) st))) = sections st
    \<and> sections (fst (generateNext_settle r new_id (Completed text) st)) \<noteq> []
    \<and> status (last (sections (fst (generateNext_settle r new_id (Completed text) st))))
        = (if autoAdvance st \<and> sections st \<noteq> [] then Accepted else Draft)
    \<and> (status (last (sections (fst (generateNext_settle r new_id (Completed text) st)))) = Accepted
         \<longleftrightarrow> autoAdvance st \<and> sections st \<noteq> [])
    \<and> (status (last (sections (fst (generateNext_settle r new_id (Completed text) st)))) = Draft
         \<longleftrightarrow> \<not> (autoAdvance st \<and> sections st \<noteq> []))
    \<and> last (sections (fst (generateNext_settle r new_id (Completed text) st)))
        \<in> set (db_sections (fst (generateNext_settle r new_id (Completed text) st))))
   \<and> (ready st \<longrightarrow>
        butlast (sections (fst (generateNext st ov new_id (Completed text) st))) = sections st
      \<and> sections (fst (generateNext st ov new_id (Completed text) st)) \<noteq> []
      \<and> status (last (sections (fst (generateNext st ov new_id (Completed text) st))))
          = (if autoAdvance st \<and> sections st \<noteq> [] then Accepted else Draft))"
proof -
  have d: "last (sections (fst (generateNext_settle r new_id (Completed text) st)))
       \<in> set (db_sections (fst (generateNext_settle r new_id (Completed text) st)))"
    by (simp add: generateNext_settle_def Let_def db_put_def set_insort_key)
  have s: "autoAdvance r = autoAdvance st \<and> (sections r = [] \<longleftrightarrow> sections st = []) \<longrightarrow>
      butlast (sections (fst (generateNext_settle r new_id (Completed text) st))) = sections st
    \<and> sections (fst (generateNext_settle r new_id (Completed text) st)) \<noteq> []
    \<and> status (last (sections (fst (generateNext_settle r new_id (Completed text) st))))
        = (if autoAdvance st \<and> sections st \<noteq> [] then Accepted else Draft)
    \<and> (status (last (sections (fst (generateNext_settle r new_id (Completed text) st)))) = Accepted
         \<longleftrightarrow> autoAdvance st \<and> sections st \<noteq> [])
    \<and> (status (last (sections (fst (generateNext_settle r new_id (Completed text) st)))) = Draft
         \<longleftrightarrow> \<not> (autoAdvance st \<and> sections st \<noteq> []))"
    by (simp add: generateNext_settle_def Let_def)
  have w: "ready st \<longrightarrow>
        butlast (sections (fst (generateNext st ov new_id (Completed text) st))) = sections st
      \<and> sections (fst (generateNext st ov new_id (Completed text) st)) \<noteq> []
      \<and> status (last (sections (fst (generateNext st ov new_id (Completed text) st))))
          = (if autoAdvance st \<and> sections st \<noteq> [] then Accepted else Draft)"
    by (simp add: ready_def generateNext_def finish_def generateNext_begin_def
        generateNext_settle_def Let_def)
  from d s w show ?thesis by blast
qed

text \<open>
  Claim C1, amended, at concrete inputs: the reply to the request that the timer of
  \<^verbatim>\<open>accept\<close> sent, with auto-advance on and one section in the list, appends an accepted
  section; with auto-advance on and an empty list, and with auto-advance off and one
  section in the list, the new section is a draft.
\<close>

theorem appended_status_witness:
  "autoAdvance draft1 = autoAdvance auto1_busy
   \<and> sections draft1 \<noteq> [] \<and> sections auto1_busy \<noteq> []
   \<and> status (last (sections (fst (generateNext_settle draft1 ''s0'' (Completed ''Two'') auto1_busy))))
       = Accepted
   \<and> ready auto_cleared \<and> autoAdvance auto_cleared \<and> sections auto_cleared = []
   \<and> status (last (sections (fst (generateNext auto_cleared None ''s2'' (Completed ''Two'') auto_cleared))))
       = Draft
   \<and> ready run_accepted \<and> \<not> autoAdvance run_accepted \<and> length (sections run_accepted) = 1
   \<and> status (last (sections (fst (generateNext run_accepted None ''s2'' (Completed ''Two'') run_accepted))))
       = Draft"
proof -
  have a: "autoAdvance draft1 = autoAdvance auto1_busy" "autoAdvance auto1_busy"
    "sections draft1 \<noteq> []" "sections auto1_busy \<noteq> []"
    by (simp_all add: draft1_eq auto1_busy_def auto1_eq)
  have b: "ready auto_cleared" "autoAdvance auto_cleared" "sections auto_cleared = []"
    by (simp_all add: auto_cleared_eq book0_def ready_def)
  have c: "ready run_accepted" "\<not> autoAdvance run_accepted" "length (sections run_accepted) = 1"
    "sections run_accepted \<noteq> []"
    by (simp_all add: run_accepted_eq book0_def ready_def)
  from appended_status [of draft1 auto1_busy "''s0''" "''Two''" None] a
  have 1: "status (last (sections (fst (generateNext_settle draft1 ''s0'' (Completed ''Two'') auto1_busy))))
       = Accepted"
    by simp
  from appended_status [of auto_cleared auto_cleared "''s2''" "''Two''" None] b
  have 2: "status (last (sections (fst (generateNext auto_cleared None ''s2'' (Completed ''Two'') auto_cleared))))
       = Draft"
    by simp
  from appended_status [of run_accepted run_accepted "''s2''" "''Two''" None] c
  have 3: "status (last (sections (fst (generateNext run_accepted None ''s2'' (Completed ''Two'') run_accepted))))
       = Draft"
    by simp
  from a b c 1 2 3 show ?thesis by simp
qed

section \<open>The continuation checks\<close>

lemma tie_two_eq:
  "tie_two = book0\<lparr> sections := [sec ''s1'' ''One'' Accepted 1, sec ''s9'' ''Two'' Draft 2],
                     db_sections := [sec ''s1'' ''One'' Accepted 1, sec ''s9'' ''Two'' Draft 2] \<rparr>"
  by (simp add: tie_two_def run_accepted_eq sec_def eval_defs heading_defs)

lemma tie_undone_eq:
  "tie_undone = book0\<lparr> sections := [sec ''s9'' ''Two'' Draft 2],
                        db_sections := [sec ''s9'' ''Two'' Draft 2] \<rparr>"
  by (simp add: tie_undone_def tie_two_eq sec_def eval_defs)

lemma tie_auto_eq:
  "tie_auto = book0\<lparr> autoAdvance := True,
                      sections := [sec ''s9'' ''Two'' Draft 2,
                                   sec ''s5'' ''The end <end_of_book>'' Draft 2],
                      db_sections := [sec ''s5'' ''The end <end_of_book>'' Draft 2,
                                      sec ''s9'' ''Two'' Draft 2] \<rparr>"
  by (simp add: tie_auto_def tie_undone_eq sec_def eval_defs heading_defs)

lemma accept_tie:
  "click_accept tie_auto ''s5'' tie_auto
     = (book0\<lparr> autoAdvance := True,
               sections := [sec ''s9'' ''Two'' Draft 2,
                            sec ''s5'' ''The end <end_of_book>'' Accepted 2],
               db_sections := [sec ''s5'' ''The end <end_of_book>'' Accepted 2,
                               sec ''s9'' ''Two'' Draft 2] \<rparr>,
        Some (AfterAccept tie_auto))"
  by (simp add: tie_auto_eq sec_def eval_defs heading_defs)

lemma tie_accepted_eq:
  "tie_accepted = book0\<lparr> autoAdvance := True,
               sections := [sec ''s9'' ''Two'' Draft 2,
                            sec ''s5'' ''The end <end_of_book>'' Accepted 2],
               db_sections := [sec ''s5'' ''The end <end_of_book>'' Accepted 2,
                               sec ''s9'' ''Two'' Draft 2] \<rparr>"
  by (simp add: tie_accepted_def accept_tie)

lemma stored_tie:
  "stored tie_auto tie_accepted
     = [sec ''s5'' ''The end <end_of_book>'' Accepted 2, sec ''s9'' ''Two'' Draft 2]"
  by (simp add: store_defs tie_auto_eq tie_accepted_eq sec_def book0_def)

lemma tie_fields:
  "maxSections tie_auto = 12" "maxSections tie_accepted = 12"
  "stopToken tie_auto = ''<end_of_book>''" "stopToken tie_accepted = ''<end_of_book>''"
  "bookId tie_auto = ''b1''" "bookId tie_accepted = ''b1''"
  "\<not> shouldStop tie_auto" "ready tie_auto"
  by (simp_all add: tie_auto_eq tie_accepted_eq book0_def ready_def)

lemma fire_tie: "is_request (snd (fire (AfterAccept tie_auto) tie_accepted))"
proof -
  have c: "stored_accepted_count tie_auto tie_accepted = 1"
    by (simp add: stored_accepted_count_def stored_tie sec_def)
  show ?thesis
    by (simp add: fire_def check_after_accept_eq tie_fields c stored_tie sec_def
        begin_request_iff)
qed

lemma settle_auto1_max2_own:
  "generateNext_settle auto1_max2 ''s0'' (Completed ''Two'') (auto1_max2\<lparr> isBusy := True \<rparr>)
     = (auto1_max2\<lparr> sections := [sec ''s1'' ''One'' Accepted 1, sec ''s0'' ''Two'' Accepted 2],
                    db_sections := [sec ''s0'' ''Two'' Accepted 2, sec ''s1'' ''One'' Accepted 1] \<rparr>,
        Some (AfterGenerate auto1_max2 False))"
  by (simp add: auto1_max2_def auto1_eq sec_def eval_defs heading_defs)

lemma auto2_max2_eq:
  "auto2_max2
     = auto1_max2\<lparr> sections := [sec ''s1'' ''One'' Accepted 1, sec ''s0'' ''Two'' Accepted 2],
                    db_sections := [sec ''s0'' ''Two'' Accepted 2, sec ''s1'' ''One'' Accepted 1] \<rparr>"
  by (simp add: auto2_max2_def settle_auto1_max2_own)

lemma settle_auto1_final:
  "generateNext_settle auto1 ''s0'' (Completed ''final words <end_of_book>'') auto1_busy
     = (auto1\<lparr> sections := [sec ''s1'' ''One'' Accepted 1,
                             (sec ''s0'' ''final words <end_of_book>'' Accepted 2)
                               \<lparr> heading := ''final words <end_of_book>'' \<rparr>],
               db_sections := [(sec ''s0'' ''final words <end_of_book>'' Accepted 2)
                                 \<lparr> heading := ''final words <end_of_book>'' \<rparr>,
                               sec ''s1'' ''One'' Accepted 1] \<rparr>,
        Some (AfterGenerate auto1 True))"
  by (simp add: auto1_busy_def auto1_eq sec_def eval_defs heading_defs)

lemma auto2_final_eq:
  "auto2_final
     = auto1\<lparr> sections := [sec ''s1'' ''One'' Accepted 1,
                            sec ''s0'' ''final words <end_of_book>'' Accepted 2],
               db_sections := [sec ''s0'' ''final words <end_of_book>'' Accepted 2,
                               sec ''s1'' ''One'' Accepted 1] \<rparr>"
  by (simp add: auto2_final_def settle_auto1_final sec_def)

lemma own_fields:
  "maxSections auto2 = 12" "stopToken auto2 = ''<end_of_book>''" "bookId auto2 = ''b1''"
  "bookId auto1 = ''b1''"
  "maxSections auto2_max2 = 2" "stopToken auto2_max2 = ''<end_of_book>''"
  "bookId auto2_max2 = ''b1''"
  "stopToken auto1_max2 = ''<end_of_book>''" "bookId auto1_max2 = ''b1''"
  "maxSections auto2_final = 12" "stopToken auto2_final = ''<end_of_book>''"
  "bookId auto2_final = ''b1''"
  "maxSections draft1 = 12" "bookId draft1 = ''b1''"
  "maxSections draft1_edited = 12" "stopToken draft1_edited = ''<end_of_book>''"
  "bookId draft1_edited = ''b1''"
  by (simp_all add: auto2_eq auto2_max2_eq auto2_final_eq auto1_max2_def auto1_eq draft1_eq
      draft1_edited_eq book0_def)

lemma own_stored:
  "stored auto2 auto2 = [sec ''s1'' ''One'' Accepted 1, sec ''s0'' ''Two'' Accepted 2]"
  "stored auto2_max2 auto2_max2 = [sec ''s1'' ''One'' Accepted 1, sec ''s0'' ''Two'' Accepted 2]"
  "stored auto1 auto1 = [sec ''s1'' ''One'' Accepted 1]"
  "stored draft1_edited draft1_edited
     = [(sec ''s1'' ''One <end_of_book>'' Accepted 1)\<lparr> heading := ''One'' \<rparr>]"
  by (simp_all add: store_defs auto2_eq auto2_max2_eq auto1_max2_def auto1_eq draft1_edited_eq
      sec_def book0_def)

lemma own_counts:
  "stored_accepted_count auto2 auto2 = 2" "stored_accepted_count auto2_max2 auto2_max2 = 2"
  "stored_accepted_count auto1 auto1 = 1"
  by (simp_all add: stored_accepted_count_def own_stored sec_def)

text \<open>
  Claim C2, as stated, fails. The check that \<^verbatim>\<open>accept\<close> schedules tests the stop token on
  the last row of the book in the database in the order of the ordinals, which need not
  be the most recently generated section. In the run below, \<^verbatim>\<open>Undo last\<close> has removed the
  first section, so the section generated next gets the ordinal 2, which the draft
  \<^verbatim>\<open>s9\<close> holds already. The new section \<^verbatim>\<open>s5\<close> holds the stop token; the user accepts
  it with auto-advance on. The check reads the rows \<^verbatim>\<open>s5\<close>, \<^verbatim>\<open>s9\<close> in this order (equal
  ordinals, in the order of the keys), tests the content of \<^verbatim>\<open>s9\<close>, and sends another
  request. The render that scheduled the check holds the maximum, the stop token and the
  book of the state in which the check runs.
\<close>

theorem older_row_tested_counterexample:
  "map id_s (sections tie_auto) = [''s9'', ''s5'']
   \<and> map order (sections tie_auto) = [2, 2]
   \<and> content (last (sections tie_auto)) = ''The end <end_of_book>''
   \<and> str_includes ''The end <end_of_book>'' (stopToken tie_accepted)
   \<and> click_accept tie_auto ''s5'' tie_auto = (tie_accepted, Some (AfterAccept tie_auto))
   \<and> maxSections tie_auto = maxSections tie_accepted
   \<and> stopToken tie_auto = stopToken tie_accepted
   \<and> bookId tie_auto = bookId tie_accepted
   \<and> map id_s (stored tie_auto tie_accepted) = [''s5'', ''s9'']
   \<and> content (last (stored tie_auto tie_accepted)) = ''Two''
   \<and> is_request (snd (fire (AfterAccept tie_auto) tie_accepted))"
proof -
  have 1: "map id_s (sections tie_auto) = [''s9'', ''s5'']"
    "map order (sections tie_auto) = [2, 2]"
    "content (last (sections tie_auto)) = ''The end <end_of_book>''"
    by (simp_all add: tie_auto_eq sec_def)
  have 2: "str_includes ''The end <end_of_book>'' (stopToken tie_accepted)"
    by (simp add: tie_fields)
  have 3: "click_accept tie_auto ''s5'' tie_auto = (tie_accepted, Some (AfterAccept tie_auto))"
    by (simp add: accept_tie tie_accepted_eq)
  have 4: "maxSections tie_auto = maxSections tie_accepted"
    "stopToken tie_auto = stopToken tie_accepted" "bookId tie_auto = bookId tie_accepted"
    by (simp_all add: tie_fields)
  have 5: "map id_s (stored tie_auto tie_accepted) = [''s5'', ''s9'']"
    "content (last (stored tie_auto tie_accepted)) = ''Two''"
    by (simp_all add: stored_tie sec_def)
  show ?thesis
    by (intro conjI) (fact 1 2 3 4 5 fire_tie)+
qed

text \<open>
  Claim C2, amended. Take a continuation check, scheduled by \<^verbatim>\<open>generateNext\<close> after it
  appended a section or by \<^verbatim>\<open>accept\<close>, whose render holds the maximum, the stop token and
  the book of the state \<open>st\<close> in which the check runs. It sends another request only if the
  stop token is absent from the content it tests and the number of accepted sections of
  the book in the database is below the maximum; in every other case it sends no request
  and turns auto-advance off. The check of \<^verbatim>\<open>generateNext\<close> tests the text just generated,
  which is the content of the section it appended; the check of \<^verbatim>\<open>accept\<close> tests the
  content of the last row of the book in the database, in the order of the ordinals.
  With the preconditions of \<^verbatim>\<open>generateNext\<close> met, the request is sent whenever both
  conditions hold.
\<close>

theorem continuation_decision:
  "(generateNext_settle r new_id (Completed text) st0 = (st1, Some tm)
      \<and> maxSections r = maxSections st \<and> stopToken r = stopToken st \<and> bookId r = bookId st \<longrightarrow>
      content (last (sections st1)) = trim text
    \<and> (is_request (snd (fire tm st)) \<longrightarrow>
          \<not> str_includes (trim text) (stopToken st)
        \<and> int (stored_accepted_count st st) < maxSections st)
    \<and> (\<not> (\<not> str_includes (trim text) (stopToken st)
            \<and> int (stored_accepted_count st st) < maxSections st) \<longrightarrow>
          fire tm st = (st\<lparr> autoAdvance := False \<rparr>, Halted))
    \<and> (ready r \<and> \<not> str_includes (trim text) (stopToken st)
          \<and> int (stored_accepted_count st st) < maxSections st \<longrightarrow>
          is_request (snd (fire tm st))))
   \<and> (accept r i st0 = (st1, Some tm)
      \<and> maxSections r = maxSections st \<and> stopToken r = stopToken st \<and> bookId r = bookId st \<longrightarrow>
      (is_request (snd (fire tm st)) \<longrightarrow>
          stored st st \<noteq> []
        \<and> \<not> str_includes (content (last (stored st st))) (stopToken st)
        \<and> int (stored_accepted_count st st) < maxSections st)
    \<and> (\<not> (stored st st \<noteq> []
            \<and> \<not> str_includes (content (last (stored st st))) (stopToken st)
            \<and> int (stored_accepted_count st st) < maxSections st) \<longrightarrow>
          fire tm st = (st\<lparr> autoAdvance := False \<rparr>, Halted))
    \<and> (ready r \<and> stored st st \<noteq> []
          \<and> \<not> str_includes (content (last (stored st st))) (stopToken st)
          \<and> int (stored_accepted_count st st) < maxSections st \<longrightarrow>
          is_request (snd (fire tm st))))"
proof (intro conjI impI)
  assume h: "generateNext_settle r new_id (Completed text) st0 = (st1, Some tm)
      \<and> maxSections r = maxSections st \<and> stopToken r = stopToken st \<and> bookId r = bookId st"
  then have a: "generateNext_settle r new_id (Completed text) st0 = (st1, Some tm)"
    and e: "maxSections r = maxSections st" "stopToken r = stopToken st"
    and s: "stored r st = stored st st" "stored_accepted_count r st = stored_accepted_count st st"
    by (simp_all add: stored_def stored_accepted_count_def)
  note t = settle_timer [OF a]
  have f: "fire tm st =
     (if \<not> str_includes (trim text) (stopToken st)
         \<and> int (stored_accepted_count st st) < maxSections st
      then generateNext_begin r None st
      else (st\<lparr> autoAdvance := False \<rparr>, Halted))"
    by (simp add: fire_def t(1) check_after_generate_eq [OF t(2)] e s)
  show "content (last (sections st1)) = trim text" by (rule t(3))
  show "fire tm st = (st\<lparr> autoAdvance := False \<rparr>, Halted)"
    if "\<not> (\<not> str_includes (trim text) (stopToken st)
            \<and> int (stored_accepted_count st st) < maxSections st)"
    using that by (auto simp: f)
  show "\<not> str_includes (trim text) (stopToken st)" if "is_request (snd (fire tm st))"
    using that by (auto simp: f split: if_splits)
  show "int (stored_accepted_count st st) < maxSections st" if "is_request (snd (fire tm st))"
    using that by (auto simp: f split: if_splits)
  show "is_request (snd (fire tm st))"
    if "ready r \<and> \<not> str_includes (trim text) (stopToken st)
          \<and> int (stored_accepted_count st st) < maxSections st"
    using that by (simp add: f begin_request_iff)
next
  assume h: "accept r i st0 = (st1, Some tm)
      \<and> maxSections r = maxSections st \<and> stopToken r = stopToken st \<and> bookId r = bookId st"
  then have a: "accept r i st0 = (st1, Some tm)"
    and e: "maxSections r = maxSections st" "stopToken r = stopToken st"
    and s: "stored r st = stored st st" "stored_accepted_count r st = stored_accepted_count st st"
    by (simp_all add: stored_def stored_accepted_count_def)
  note t = accept_timer [OF a]
  have f: "fire tm st =
     (if stored st st \<noteq> [] \<and> \<not> str_includes (content (last (stored st st))) (stopToken st)
         \<and> int (stored_accepted_count st st) < maxSections st
      then generateNext_begin r
             (Some (sort_key order (filter (\<lambda>s. status s = Accepted) (stored st st)))) st
      else (st\<lparr> autoAdvance := False \<rparr>, Halted))"
    by (simp add: fire_def t(1) check_after_accept_eq [OF t(2)] e s)
  show "fire tm st = (st\<lparr> autoAdvance := False \<rparr>, Halted)"
    if "\<not> (stored st st \<noteq> []
            \<and> \<not> str_includes (content (last (stored st st))) (stopToken st)
            \<and> int (stored_accepted_count st st) < maxSections st)"
    using that by (auto simp: f)
  show "stored st st \<noteq> []" if "is_request (snd (fire tm st))"
    using that by (auto simp: f split: if_splits)
  show "\<not> str_includes (content (last (stored st st))) (stopToken st)"
    if "is_request (snd (fire tm st))"
    using that by (auto simp: f split: if_splits)
  show "int (stored_accepted_count st st) < maxSections st" if "is_request (snd (fire tm st))"
    using that by (auto simp: f split: if_splits)
  show "is_request (snd (fire tm st))"
    if "ready r \<and> stored st st \<noteq> []
          \<and> \<not> str_includes (content (last (stored st st))) (stopToken st)
          \<and> int (stored_accepted_count st st) < maxSections st"
    using that by (simp add: f begin_request_iff)
qed

text \<open>
  Claim C2, amended, at concrete inputs. After \<^verbatim>\<open>generateNext\<close>: two accepted sections and
  the maximum 12 give a request; two accepted sections and the maximum 2 give none; a
  reply that holds the stop token gives none. After \<^verbatim>\<open>accept\<close>: one accepted section gives
  a request; the stop token in the stored content of the last section gives none.
\<close>

theorem continuation_decision_witness:
  "generateNext_settle auto1 ''s0'' (Completed ''Two'') auto1_busy
     = (auto2, Some (AfterGenerate auto1 False))
   \<and> maxSections auto2 = 12 \<and> stored_accepted_count auto2 auto2 = 2
   \<and> is_request (snd (fire (AfterGenerate auto1 False) auto2))
   \<and> generateNext_settle auto1_max2 ''s0'' (Completed ''Two'') (auto1_max2\<lparr> isBusy := True \<rparr>)
       = (auto2_max2, Some (AfterGenerate auto1_max2 False))
   \<and> maxSections auto2_max2 = 2 \<and> stored_accepted_count auto2_max2 auto2_max2 = 2
   \<and> fire (AfterGenerate auto1_max2 False) auto2_max2
       = (auto2_max2\<lparr> autoAdvance := False \<rparr>, Halted)
   \<and> generateNext_settle auto1 ''s0'' (Completed ''final words <end_of_book>'') auto1_busy
       = (auto2_final, Some (AfterGenerate auto1 True))
   \<and> fire (AfterGenerate auto1 True) auto2_final = (auto2_final\<lparr> autoAdvance := False \<rparr>, Halted)
   \<and> accept draft1 ''s1'' draft1 = (draft1_accepted, Some (AfterAccept draft1))
   \<and> content (last (stored draft1_accepted draft1_accepted)) = ''One''
   \<and> is_request (snd (fire (AfterAccept draft1) draft1_accepted))
   \<and> content (last (stored draft1_edited draft1_edited)) = ''One <end_of_book>''
   \<and> fire (AfterAccept draft1) draft1_edited = (draft1_edited\<lparr> autoAdvance := False \<rparr>, Halted)"
proof -
  have s1: "generateNext_settle auto1 ''s0'' (Completed ''Two'') auto1_busy
              = (auto2, Some (AfterGenerate auto1 False))"
    by (simp add: settle_auto1 auto2_eq)
  have s2: "generateNext_settle auto1_max2 ''s0'' (Completed ''Two'')
              (auto1_max2\<lparr> isBusy := True \<rparr>) = (auto2_max2, Some (AfterGenerate auto1_max2 False))"
    by (simp add: settle_auto1_max2_own auto2_max2_eq)
  have s3: "generateNext_settle auto1 ''s0'' (Completed ''final words <end_of_book>'') auto1_busy
              = (auto2_final, Some (AfterGenerate auto1 True))"
    by (simp add: settle_auto1_final auto2_final_eq sec_def)
  have a: "accept draft1 ''s1'' draft1 = (draft1_accepted, Some (AfterAccept draft1))"
    by (simp add: accept_draft1 draft1_accepted_eq)
  have t: "trim ''Two'' = ''Two''" "trim ''final words <end_of_book>'' = ''final words <end_of_book>''"
    by (simp_all add: trim_def is_ws_def)
  have e1: "maxSections auto1 = maxSections auto2 \<and> stopToken auto1 = stopToken auto2
            \<and> bookId auto1 = bookId auto2"
    by (simp add: example_maxima example_tokens own_fields)
  have e2: "maxSections auto1_max2 = maxSections auto2_max2
            \<and> stopToken auto1_max2 = stopToken auto2_max2 \<and> bookId auto1_max2 = bookId auto2_max2"
    by (simp add: example_maxima own_fields)
  have e3: "maxSections auto1 = maxSections auto2_final \<and> stopToken auto1 = stopToken auto2_final
            \<and> bookId auto1 = bookId auto2_final"
    by (simp add: example_maxima example_tokens own_fields)
  have e4: "maxSections draft1 = maxSections draft1_accepted
            \<and> stopToken draft1 = stopToken draft1_accepted
            \<and> bookId draft1 = bookId draft1_accepted"
    by (simp add: draft1_accepted_eq example_maxima example_tokens own_fields)
  have e5: "maxSections draft1 = maxSections draft1_edited
            \<and> stopToken draft1 = stopToken draft1_edited \<and> bookId draft1 = bookId draft1_edited"
    by (simp add: example_tokens own_fields)
  have c1: "\<not> str_includes (trim ''Two'') (stopToken auto2)
            \<and> int (stored_accepted_count auto2 auto2) < maxSections auto2"
    by (simp add: t own_fields own_counts)
  have c2: "\<not> (\<not> str_includes (trim ''Two'') (stopToken auto2_max2)
               \<and> int (stored_accepted_count auto2_max2 auto2_max2) < maxSections auto2_max2)"
    by (simp add: own_fields own_counts)
  have c3: "\<not> (\<not> str_includes (trim ''final words <end_of_book>'') (stopToken auto2_final)
               \<and> int (stored_accepted_count auto2_final auto2_final) < maxSections auto2_final)"
    by (simp add: t own_fields)
  have l4: "content (last (stored draft1_accepted draft1_accepted)) = ''One''"
    by (simp add: draft1_accepted_eq own_stored sec_def)
  have c4: "stored draft1_accepted draft1_accepted \<noteq> []
            \<and> \<not> str_includes (content (last (stored draft1_accepted draft1_accepted)))
                  (stopToken draft1_accepted)
            \<and> int (stored_accepted_count draft1_accepted draft1_accepted)
                < maxSections draft1_accepted"
    by (simp add: draft1_accepted_eq own_stored own_counts example_maxima example_tokens sec_def)
  have l5: "content (last (stored draft1_edited draft1_edited)) = ''One <end_of_book>''"
    by (simp add: own_stored sec_def)
  have c5: "\<not> (stored draft1_edited draft1_edited \<noteq> []
            \<and> \<not> str_includes (content (last (stored draft1_edited draft1_edited)))
                  (stopToken draft1_edited)
            \<and> int (stored_accepted_count draft1_edited draft1_edited)
                < maxSections draft1_edited)"
    by (simp add: l5 own_fields)
  from continuation_decision [of auto1 "''s0''" "''Two''" auto1_busy auto2
          "AfterGenerate auto1 False" auto2 "''s1''"] s1 e1 c1 ready_examples(2)
  have r1: "is_request (snd (fire (AfterGenerate auto1 False) auto2))"
    by blast
  from continuation_decision [of auto1_max2 "''s0''" "''Two''" "auto1_max2\<lparr> isBusy := True \<rparr>"
          auto2_max2 "AfterGenerate auto1_max2 False" auto2_max2 "''s1''"] s2 e2 c2
  have r2: "fire (AfterGenerate auto1_max2 False) auto2_max2
              = (auto2_max2\<lparr> autoAdvance := False \<rparr>, Halted)"
    by blast
  from continuation_decision [of auto1 "''s0''" "''final words <end_of_book>''" auto1_busy
          auto2_final "AfterGenerate auto1 True" auto2_final "''s1''"] s3 e3 c3
  have r3: "fire (AfterGenerate auto1 True) auto2_final
              = (auto2_final\<lparr> autoAdvance := False \<rparr>, Halted)"
    by blast
  from continuation_decision [of draft1 "''s1''" "''Two''" draft1 draft1_accepted
          "AfterAccept draft1" draft1_accepted "''s1''"] a e4 c4 ready_examples(4)
  have r4: "is_request (snd (fire (AfterAccept draft1) draft1_accepted))"
    by blast
  from continuation_decision [of draft1 "''s1''" "''Two''" draft1 draft1_accepted
          "AfterAccept draft1" draft1_edited "''s1''"] a e5 c5
  have r5: "fire (AfterAccept draft1) draft1_edited
              = (draft1_edited\<lparr> autoAdvance := False \<rparr>, Halted)"
    by blast
  note f = own_fields(1,5) and k = own_counts(1,2)
  show ?thesis
    by (intro conjI) (fact s1 s2 s3 a f k r1 r2 r3 r4 r5 l4 l5)+
qed

section \<open>The busy flag\<close>

lemma auto2_next_eq: "auto2_next = auto2\<lparr> autoAdvance := False, isBusy := True \<rparr>"
  by (simp add: auto2_next_def click_next_def generateNext_begin_def Let_def auto2_eq auto1_eq
      book0_def)

lemma click_next_auto2: "is_request (snd (click_next auto2 auto2))"
  by (simp add: click_next_def generateNext_begin_def Let_def auto2_eq auto1_eq book0_def)

lemma fire_while_busy:
  "isBusy auto2_next" "is_request (snd (fire (AfterGenerate auto1 False) auto2_next))"
proof -
  have n: "\<not> shouldStop auto1" by (simp add: auto1_eq book0_def)
  have c: "stored_accepted_count auto1 auto2_next = 2"
    by (simp add: store_defs auto2_next_eq auto2_eq auto1_eq sec_def book0_def)
  show "isBusy auto2_next" by (simp add: auto2_next_eq)
  show "is_request (snd (fire (AfterGenerate auto1 False) auto2_next))"
    by (simp add: fire_def check_after_generate_eq n c example_maxima begin_request_iff
        ready_examples)
qed

text \<open>
  The callers of \<^verbatim>\<open>generateNext\<close> that a click reaches test the busy flag of their render:
  the buttons are disabled and \<^verbatim>\<open>accept\<close> sets no timer. The callbacks of the timers do
  not: what a check sends does not depend on the busy flag, of the state or of the
  render that set the timer.
\<close>

lemma busy_disables_callers:
  assumes "isBusy r"
  shows "click_next r st = (st, Disabled)" "click_auto r st = (st, Disabled)"
    "snd (accept r i st) = None" "snd (click_accept r i st) = None"
  using assms by (simp_all add: click_next_def click_auto_def accept_def click_accept_def Let_def)

lemma timer_ignores_busy:
  "snd (fire tm (st\<lparr> isBusy := b \<rparr>)) = snd (fire tm st)"
  "snd (fire (AfterGenerate (r\<lparr> isBusy := b \<rparr>) tok) st) = snd (fire (AfterGenerate r tok) st)"
  "snd (fire (AfterAccept (r\<lparr> isBusy := b \<rparr>)) st) = snd (fire (AfterAccept r) st)"
  by (cases tm)
     (simp_all add: fire_def check_after_generate_def check_after_accept_def
        generateNext_begin_def user_prompt_def stored_def stored_accepted_count_def Let_def)

lemma draft1_next_eq: "draft1_next = auto1\<lparr> autoAdvance := False, isBusy := True \<rparr>"
  by (simp add: draft1_next_def draft1_accepted_eq click_next_def generateNext_begin_def Let_def
      auto1_eq book0_def)

lemma click_next_draft1: "is_request (snd (click_next draft1_accepted draft1_accepted))"
  by (simp add: draft1_accepted_eq click_next_def generateNext_begin_def Let_def auto1_eq book0_def)

lemma fire_accept_while_busy:
  "isBusy draft1_next" "is_request (snd (fire (AfterAccept draft1) draft1_next))"
proof -
  have n: "\<not> shouldStop draft1" "maxSections draft1 = 12"
    by (simp_all add: draft1_eq book0_def)
  have s: "stored draft1 draft1_next = [sec ''s1'' ''One'' Accepted 1]"
    by (simp add: store_defs draft1_next_eq draft1_eq auto1_eq sec_def book0_def)
  have c: "stored_accepted_count draft1 draft1_next = 1"
    by (simp add: stored_accepted_count_def s sec_def)
  show "isBusy draft1_next" by (simp add: draft1_next_eq)
  show "is_request (snd (fire (AfterAccept draft1) draft1_next))"
    by (simp add: fire_def check_after_accept_eq n c s sec_def example_tokens begin_request_iff
        ready_examples)
qed

lemma draft1_both_eq: "draft1_both = draft1_next"
proof -
  have n: "\<not> shouldStop draft1" "maxSections draft1 = 12"
    by (simp_all add: draft1_eq book0_def)
  have s: "stored draft1 draft1_next = [sec ''s1'' ''One'' Accepted 1]"
    by (simp add: store_defs draft1_next_eq draft1_eq auto1_eq sec_def book0_def)
  have c: "stored_accepted_count draft1 draft1_next = 1"
    by (simp add: stored_accepted_count_def s sec_def)
  have b: "fst (generateNext_begin draft1 ov draft1_next) = draft1_next" for ov
    by (simp add: generateNext_begin_def Let_def draft1_eq draft1_next_eq auto1_eq book0_def)
  show ?thesis
    by (simp add: draft1_both_def fire_def check_after_accept_eq n c s sec_def example_tokens b)
qed

lemma draft1_settled_ids:
  "map id_s (sections draft1_settled) = [''s1'', ''s2'', ''s3'']"
  "map order (sections draft1_settled) = [1, 2, 2]"
  by (simp_all add: draft1_settled_def draft1_both_eq draft1_next_eq draft1_accepted_eq draft1_eq
      auto1_eq sec_def eval_defs heading_defs)

text \<open>
  Claim C3 says that at most one request is in flight at any time. The code does not
  ensure it. The user clicks \<^verbatim>\<open>Auto advance\<close> and gets a draft, then clicks \<^verbatim>\<open>Accept\<close>:
  the busy flag is clear and \<^verbatim>\<open>accept\<close> sets its timer. While the timer is pending the
  user clicks \<^verbatim>\<open>Next\<close>: a request is sent and the busy flag is set. Then the callback of
  the timer runs; it calls \<^verbatim>\<open>generateNext\<close> without a test of the busy flag, and a second
  request is sent while the first is in flight. When both replies are settled the list
  holds two more sections. The same happens with the timer that \<^verbatim>\<open>generateNext\<close> sets
  after it appended a section.
\<close>

theorem second_request_in_flight:
  "draft1 = auto_first
   \<and> click_accept draft1 ''s1'' draft1 = (draft1_accepted, Some (AfterAccept draft1))
   \<and> \<not> isBusy draft1_accepted
   \<and> is_request (snd (click_next draft1_accepted draft1_accepted))
   \<and> isBusy draft1_next
   \<and> is_request (snd (fire (AfterAccept draft1) draft1_next))
   \<and> map id_s (sections draft1_next) = [''s1'']
   \<and> map id_s (sections draft1_settled) = [''s1'', ''s2'', ''s3'']
   \<and> snd (generateNext_settle auto1 ''s0'' (Completed ''Two'') auto1_busy)
       = Some (AfterGenerate auto1 False)
   \<and> \<not> isBusy auto2
   \<and> is_request (snd (click_next auto2 auto2))
   \<and> isBusy auto2_next
   \<and> is_request (snd (fire (AfterGenerate auto1 False) auto2_next))"
proof -
  have 1: "draft1 = auto_first"
    by (simp add: draft1_eq auto_first_eq)
  have o: "offered draft1 ''s1''"
    by (simp add: offered_def draft1_eq sec_def)
  have 2: "click_accept draft1 ''s1'' draft1 = (draft1_accepted, Some (AfterAccept draft1))"
    by (simp add: click_accept_def o accept_draft1 draft1_accepted_eq)
  have 3: "\<not> isBusy draft1_accepted"
    by (simp add: draft1_accepted_eq auto1_eq book0_def)
  have 4: "map id_s (sections draft1_next) = [''s1'']"
    by (simp add: draft1_next_eq auto1_eq sec_def)
  have 5: "snd (generateNext_settle auto1 ''s0'' (Completed ''Two'') auto1_busy)
             = Some (AfterGenerate auto1 False)"
    by (simp add: settle_auto1)
  have 6: "\<not> isBusy auto2"
    by (simp add: auto2_eq auto1_eq book0_def)
  show ?thesis
    by (intro conjI)
       (fact 1 2 3 4 5 6 click_next_draft1 fire_accept_while_busy draft1_settled_ids(1)
          click_next_auto2 fire_while_busy)+
qed

section \<open>What a continuation check reads\<close>

text \<open>
  Claim C4, as stated, fails for the check that \<^verbatim>\<open>generateNext\<close> schedules: its stop-token
  test is \<^verbatim>\<open>hasStopToken\<close>, computed from the generated text before the timer is set.
  Below, the user edits the new section during the delay, so that the content stored for
  the latest section contains the stop token; the check sends a request all the same,
  as it does on the unedited store.
\<close>

theorem stored_content_ignored_counterexample:
  "snd (generateNext_settle auto1 ''s0'' (Completed ''Two'') auto1_busy)
     = Some (AfterGenerate auto1 False)
   \<and> content (last (stored auto1 auto2)) = ''Two''
   \<and> content (last (stored auto1 auto2_edited)) = ''Two <end_of_book>''
   \<and> str_includes (content (last (stored auto1 auto2_edited))) (stopToken auto1)
   \<and> is_request (snd (fire (AfterGenerate auto1 False) auto2))
   \<and> is_request (snd (fire (AfterGenerate auto1 False) auto2_edited))"
  by (simp add: settle_auto1 stored_auto2 fire_generate_examples sec_def example_tokens)

text \<open>
  Claim C4, amended. Both checks read the number of accepted sections from the database
  when they run. The check that \<^verbatim>\<open>accept\<close> schedules also reads the content of the latest
  section from the database when it runs, so its decision follows the stored content.
  The check that \<^verbatim>\<open>generateNext\<close> schedules tests the text that was generated, as it was
  before the delay: its decision depends on the current state only through the number of
  accepted sections in the database. Neither decision depends on the state variables of
  the current state.
\<close>

theorem decision_inputs:
  "(generateNext_settle r new_id (Completed text) st0 = (st1, Some tm) \<longrightarrow>
      (is_request (snd (fire tm st)) \<longleftrightarrow>
         \<not> str_includes (trim text) (stopToken r)
       \<and> int (stored_accepted_count r st) < maxSections r \<and> ready r)
    \<and> (db_sections st' = db_sections st \<longrightarrow>
         is_request (snd (fire tm st')) = is_request (snd (fire tm st)))
    \<and> (stored_accepted_count r st' = stored_accepted_count r st \<longrightarrow>
         is_request (snd (fire tm st')) = is_request (snd (fire tm st))))
   \<and> (accept r i st0 = (st1, Some tm) \<longrightarrow>
      (is_request (snd (fire tm st)) \<longleftrightarrow>
         stored r st \<noteq> []
       \<and> \<not> str_includes (content (last (stored r st))) (stopToken r)
       \<and> int (stored_accepted_count r st) < maxSections r \<and> ready r)
    \<and> (db_sections st' = db_sections st \<longrightarrow>
         is_request (snd (fire tm st')) = is_request (snd (fire tm st))))"
proof (intro conjI impI)
  assume a: "generateNext_settle r new_id (Completed text) st0 = (st1, Some tm)"
  note t = settle_timer [OF a]
  have f: "\<And>s. is_request (snd (fire tm s)) \<longleftrightarrow>
         \<not> str_includes (trim text) (stopToken r)
       \<and> int (stored_accepted_count r s) < maxSections r \<and> ready r"
    by (simp add: fire_def t(1) check_after_generate_eq [OF t(2)] begin_request_iff)
  show "is_request (snd (fire tm st)) \<longleftrightarrow>
         \<not> str_includes (trim text) (stopToken r)
       \<and> int (stored_accepted_count r st) < maxSections r \<and> ready r"
    by (rule f)
  show "is_request (snd (fire tm st')) = is_request (snd (fire tm st))"
    if "db_sections st' = db_sections st"
    using that by (simp add: f stored_accepted_count_def stored_def)
  show "is_request (snd (fire tm st')) = is_request (snd (fire tm st))"
    if "stored_accepted_count r st' = stored_accepted_count r st"
    using that by (simp add: f)
next
  assume a: "accept r i st0 = (st1, Some tm)"
  note t = accept_timer [OF a]
  have f: "\<And>s. is_request (snd (fire tm s)) \<longleftrightarrow>
         stored r s \<noteq> []
       \<and> \<not> str_includes (content (last (stored r s))) (stopToken r)
       \<and> int (stored_accepted_count r s) < maxSections r \<and> ready r"
    by (simp add: fire_def t(1) check_after_accept_eq [OF t(2)] begin_request_iff)
  show "is_request (snd (fire tm st)) \<longleftrightarrow>
         stored r st \<noteq> []
       \<and> \<not> str_includes (content (last (stored r st))) (stopToken r)
       \<and> int (stored_accepted_count r st) < maxSections r \<and> ready r"
    by (rule f)
  show "is_request (snd (fire tm st')) = is_request (snd (fire tm st))"
    if "db_sections st' = db_sections st"
    using that by (simp add: f stored_accepted_count_def stored_def)
qed

text \<open>
  Claim C4, amended, at concrete inputs: the check of \<^verbatim>\<open>generateNext\<close> decides the same
  on the edited store; the check of \<^verbatim>\<open>accept\<close> sends a request on the store as accepted,
  and none once the stored content contains the stop token.
\<close>

theorem decision_inputs_witness:
  "generateNext_settle auto1 ''s0'' (Completed ''Two'') auto1_busy
     = (auto2, Some (AfterGenerate auto1 False))
   \<and> stored_accepted_count auto1 auto2_edited = stored_accepted_count auto1 auto2
   \<and> is_request (snd (fire (AfterGenerate auto1 False) auto2_edited))
   \<and> is_request (snd (fire (AfterGenerate auto1 False) auto2))
   \<and> accept draft1 ''s1'' draft1 = (draft1_accepted, Some (AfterAccept draft1))
   \<and> is_request (snd (fire (AfterAccept draft1) draft1_accepted))
   \<and> str_includes (content (last (stored draft1 draft1_edited))) (stopToken draft1)
   \<and> \<not> is_request (snd (fire (AfterAccept draft1) draft1_edited))"
proof -
  have s: "generateNext_settle auto1 ''s0'' (Completed ''Two'') auto1_busy
             = (auto2, Some (AfterGenerate auto1 False))"
    by (simp add: settle_auto1 auto2_eq)
  have a: "accept draft1 ''s1'' draft1 = (draft1_accepted, Some (AfterAccept draft1))"
    by (simp add: accept_draft1 draft1_accepted_eq)
  have c: "stored_accepted_count auto1 auto2_edited = stored_accepted_count auto1 auto2"
    by (simp add: stored_accepted_count_def stored_auto2 sec_def)
  have k: "str_includes (content (last (stored draft1 draft1_edited))) (stopToken draft1)"
    by (simp add: stored_draft1 sec_def example_tokens)
  from decision_inputs [of auto1 "''s0''" "''Two''" auto1_busy auto2 "AfterGenerate auto1 False"
      auto2 auto2_edited "''s1''"] s c fire_generate_examples(1)
  have g: "is_request (snd (fire (AfterGenerate auto1 False) auto2_edited))"
    by blast
  from decision_inputs [of draft1 "''s0''" "''Two''" draft1 draft1_accepted "AfterAccept draft1"
      draft1_edited draft1_edited "''s1''"] a k
  have e: "\<not> is_request (snd (fire (AfterAccept draft1) draft1_edited))"
    by blast
  from s a c k g e fire_generate_examples(1) fire_accept_examples(1) show ?thesis
    by (simp add: draft1_accepted_eq)
qed

section \<open>Ordinals\<close>

lemma next_cycle:
  assumes "ready st" "\<not> isBusy st"
  shows "ready (fst (finish st new_id (Completed text) (click_next st st)))
       \<and> \<not> isBusy (fst (finish st new_id (Completed text) (click_next st st)))
       \<and> map order (sections (fst (finish st new_id (Completed text) (click_next st st))))
           = map order (sections st) @ [Suc (length (sections st))]"
  using assms
  by (auto simp: ready_def click_next_def generateNext_begin_def finish_def
      generateNext_settle_def Let_def)

lemma upt_step: "Suc n # [Suc (Suc n) ..< Suc (Suc (n + m))] = [Suc n ..< Suc (Suc (n + m))]"
  by (subst (2) upt_rec) simp

lemma next_clicks_orders:
  "ready st \<Longrightarrow> \<not> isBusy st \<Longrightarrow>
     map order (sections (next_clicks xs st))
       = map order (sections st)
         @ [Suc (length (sections st)) ..< Suc (length (sections st) + length xs)]"
proof (induction xs arbitrary: st)
  case Nil
  then show ?case by simp
next
  case (Cons x rest)
  obtain new_id t where x: "x = (new_id, t)" by (cases x)
  let ?st' = "fst (finish st new_id (Completed t) (click_next st st))"
  from next_cycle [OF Cons.prems, of new_id t]
  have r: "ready ?st'" and b: "\<not> isBusy ?st'"
    and o: "map order (sections ?st') = map order (sections st) @ [Suc (length (sections st))]"
    by simp_all
  from o have len: "length (sections ?st') = Suc (length (sections st))"
    by (metis length_append_singleton length_map)
  have "map order (sections (next_clicks (x # rest) st))
          = map order (sections (next_clicks rest ?st'))"
    by (simp add: x)
  also have "\<dots> = map order (sections ?st')
                   @ [Suc (length (sections ?st')) ..< Suc (length (sections ?st') + length rest)]"
    by (rule Cons.IH [OF r b])
  also have "\<dots> = map order (sections st)
                   @ [Suc (length (sections st)) ..< Suc (length (sections st) + length (x # rest))]"
    by (simp add: o len upt_step del: upt_Suc)
  finally show ?case .
qed

text \<open>
  Claim C5, as stated, fails: an ordinal removed by a deletion is assigned again. The
  first section gets the ordinal 1; it is accepted and removed by \<^verbatim>\<open>Undo last\<close>, in the
  list and in the database; the next section, a new one, gets the ordinal 1.
\<close>

theorem ordinal_reused_counterexample:
  "map id_s (sections run_first) = [''s1''] \<and> map order (sections run_first) = [1]
   \<and> map status (sections run_accepted) = [Accepted]
   \<and> sections run_undone = [] \<and> db_sections run_undone = []
   \<and> map id_s (sections run_second) = [''s2''] \<and> map order (sections run_second) = [1]"
  by (simp add: run_first_eq run_accepted_eq run_undone_eq run_second_eq sec_def book0_def)

text \<open>
  Claim C5, amended. Take an invocation of \<^verbatim>\<open>generateNext\<close> whose render holds as many
  sections as the list does when the reply is settled. The ordinal of the appended section
  is the number of sections in the list, plus one; the ordinals of the other sections are
  unchanged; and a list whose ordinals are 1, 2, ..., n has the ordinals 1, 2, ..., n + 1
  afterwards. Hence in a run of clicks on \<^verbatim>\<open>Start\<close>/\<^verbatim>\<open>Next\<close>, each on the latest render,
  each answered before the next, and with no deletion between them, the new ordinals
  continue from the number of sections; when the run begins with an empty list they are
  1, 2, 3 and so on, strictly increasing in the order of the appends.
\<close>

theorem ordinal_is_count_plus_one:
  "(length (sections r) = length (sections st) \<longrightarrow>
      map order (sections (fst (generateNext_settle r new_id (Completed text) st)))
        = map order (sections st) @ [length (sections st) + 1])
   \<and> (length (sections r) = length (sections st)
        \<and> map order (sections st) = [1 ..< Suc (length (sections st))] \<longrightarrow>
      map order (sections (fst (generateNext_settle r new_id (Completed text) st)))
        = [1 ..< Suc (Suc (length (sections st)))])
   \<and> (ready st \<and> \<not> isBusy st \<longrightarrow>
        map order (sections (next_clicks xs st))
          = map order (sections st)
            @ [Suc (length (sections st)) ..< Suc (length (sections st) + length xs)])
   \<and> (ready st \<and> \<not> isBusy st \<and> sections st = [] \<longrightarrow>
        map order (sections (next_clicks xs st)) = [1 ..< Suc (length xs)]
      \<and> sorted_wrt (<) (map order (sections (next_clicks xs st))))"
proof -
  have 1: "length (sections r) = length (sections st) \<longrightarrow>
      map order (sections (fst (generateNext_settle r new_id (Completed text) st)))
        = map order (sections st) @ [length (sections st) + 1]"
    by (simp add: generateNext_settle_def Let_def)
  have 2: "length (sections r) = length (sections st)
        \<and> map order (sections st) = [1 ..< Suc (length (sections st))] \<longrightarrow>
      map order (sections (fst (generateNext_settle r new_id (Completed text) st)))
        = [1 ..< Suc (Suc (length (sections st)))]"
    by (simp add: generateNext_settle_def Let_def)
  have 3: "ready st \<and> \<not> isBusy st \<longrightarrow>
        map order (sections (next_clicks xs st))
          = map order (sections st)
            @ [Suc (length (sections st)) ..< Suc (length (sections st) + length xs)]"
    using next_clicks_orders [of st xs] by blast
  have 4: "ready st \<and> \<not> isBusy st \<and> sections st = [] \<longrightarrow>
        map order (sections (next_clicks xs st)) = [1 ..< Suc (length xs)]"
    using next_clicks_orders [of st xs] by auto
  have 5: "ready st \<and> \<not> isBusy st \<and> sections st = [] \<longrightarrow>
        sorted_wrt (<) (map order (sections (next_clicks xs st)))"
  proof
    assume h: "ready st \<and> \<not> isBusy st \<and> sections st = []"
    with 4 have "map order (sections (next_clicks xs st)) = [1 ..< Suc (length xs)]"
      by blast
    then show "sorted_wrt (<) (map order (sections (next_clicks xs st)))"
      by (simp only: sorted_wrt_upt)
  qed
  from 1 2 3 4 5 show ?thesis by blast
qed

text \<open>
  Claim C5, amended, at concrete inputs: three sections from an empty list, and the
  reply to the request that the timer of \<^verbatim>\<open>accept\<close> sent.
\<close>

theorem ordinal_is_count_plus_one_witness:
  "ready book0 \<and> \<not> isBusy book0 \<and> sections book0 = []
   \<and> map order (sections (next_clicks [(''s1'', ''One''), (''s2'', ''Two''), (''s3'', ''Three'')] book0))
       = [1, 2, 3]
   \<and> length (sections draft1) = length (sections auto1_busy)
   \<and> map order (sections auto1_busy) = [1]
   \<and> map order (sections (fst (generateNext_settle draft1 ''s0'' (Completed ''Two'') auto1_busy)))
       = [1, 2]"
proof -
  have h: "ready book0 \<and> \<not> isBusy book0 \<and> sections book0 = []"
    by (simp add: ready_def book0_def)
  have u: "[1 ..< Suc (length [(''s1'', ''One''), (''s2'', ''Two''), (''s3'', ''Three'')])] = [1, 2, 3::nat]"
    by (simp add: upt_conv_Cons)
  have l: "length (sections draft1) = length (sections auto1_busy)"
    "map order (sections auto1_busy) = [1]" "length (sections auto1_busy) = 1"
    by (simp_all add: draft1_eq auto1_busy_def auto1_eq sec_def)
  have v: "map order (sections auto1_busy) = [1 ..< Suc (length (sections auto1_busy))]"
    by (simp add: l)
  from ordinal_is_count_plus_one [of book0 book0 "''s1''" "''One''"
      "[(''s1'', ''One''), (''s2'', ''Two''), (''s3'', ''Three'')]"] h
  have "map order (sections (next_clicks [(''s1'', ''One''), (''s2'', ''Two''), (''s3'', ''Three'')] book0))
       = [1 ..< Suc (length [(''s1'', ''One''), (''s2'', ''Two''), (''s3'', ''Three'')])]"
    by blast
  then have 1: "map order (sections (next_clicks [(''s1'', ''One''), (''s2'', ''Two''), (''s3'', ''Three'')] book0))
       = [1, 2, 3]"
    by (simp only: u)
  from ordinal_is_count_plus_one [of draft1 auto1_busy "''s0''" "''Two''" "[]"] l(1) v
  have "map order (sections (fst (generateNext_settle draft1 ''s0'' (Completed ''Two'') auto1_busy)))
       = [1 ..< Suc (Suc (length (sections auto1_busy)))]"
    by blast
  then have 2: "map order (sections (fst (generateNext_settle draft1 ''s0'' (Completed ''Two'') auto1_busy)))
       = [1, 2]"
    by (simp add: l(3) upt_conv_Cons)
  from h l(1,2) 1 2 show ?thesis by simp
qed


section \<open>Status changes\<close>

lemma set_status_all:
  fixes xs :: "section_row list"
  shows "\<forall>s \<in> set (map (\<lambda>s. if id_s s = i then s\<lparr> status := v, heading := h s \<rparr> else s) xs).
      id_s s = i \<longrightarrow> status s = v"
  by (induction xs) simp_all

lemma accept_sections:
  "sections (fst (accept r i st))
     = map (\<lambda>s. if id_s s = i
                then s\<lparr> status := Accepted, heading := parseHeading (content s) \<rparr>
                else s) (sections st)"
  by (simp add: accept_def updateSectionLocal_def merge_update_def Let_def)

lemma discard_sections:
  "sections (discard i st)
     = map (\<lambda>s. if id_s s = i
                then s\<lparr> status := Discarded, heading := parseHeading (content s) \<rparr>
                else s) (sections st)"
  by (simp add: discard_def updateSectionLocal_def merge_update_def)

lemma shelf_statuses:
  "map status (sections shelf) = [Accepted, Draft, Accepted, Discarded]"
  "map id_s (sections shelf) = [''a'', ''b'', ''c'', ''d'']"
  "map status (sections (fst (accept shelf ''d'' shelf))) = [Accepted, Draft, Accepted, Accepted]"
  "map status (sections (discard ''a'' shelf)) = [Discarded, Draft, Accepted, Discarded]"
  "map status (sections (fst (accept shelf ''b'' shelf))) = [Accepted, Accepted, Accepted, Discarded]"
  "map status (sections (discard ''b'' shelf)) = [Accepted, Discarded, Accepted, Discarded]"
  by (simp_all add: accept_sections discard_sections shelf_def sec_a_def sec_b_def sec_c_def sec_d_def)

lemma shelf_db_statuses:
  "map status (db_sections (fst (accept shelf ''d'' shelf))) = [Accepted, Draft, Accepted, Accepted]"
  "map status (db_sections (discard ''a'' shelf)) = [Discarded, Draft, Accepted, Discarded]"
  by (simp_all add: accept_def discard_def updateSectionLocal_def db_update_def Let_def
      shelf_def sec_a_def sec_b_def sec_c_def sec_d_def)

lemma shelf_offered: "offered shelf ''b''" "\<not> offered shelf ''d''" "\<not> offered shelf ''a''"
  by (simp_all add: offered_def shelf_def sec_a_def sec_b_def sec_c_def sec_d_def)

text \<open>
  Claim C6, as stated, fails: no status change is rejected. \<^verbatim>\<open>accept\<close> on the discarded
  section \<^verbatim>\<open>d\<close> makes it accepted, and \<^verbatim>\<open>discard\<close> on the accepted section \<^verbatim>\<open>a\<close> makes it
  discarded, in the list and in the database.
\<close>

theorem transition_counterexample:
  "map status (sections shelf) = [Accepted, Draft, Accepted, Discarded]
   \<and> map id_s (sections shelf) = [''a'', ''b'', ''c'', ''d'']
   \<and> map status (sections (fst (accept shelf ''d'' shelf))) = [Accepted, Draft, Accepted, Accepted]
   \<and> map status (db_sections (fst (accept shelf ''d'' shelf))) = [Accepted, Draft, Accepted, Accepted]
   \<and> map status (sections (discard ''a'' shelf)) = [Discarded, Draft, Accepted, Discarded]
   \<and> map status (db_sections (discard ''a'' shelf)) = [Discarded, Draft, Accepted, Discarded]"
  by (simp add: shelf_statuses shelf_db_statuses)

text \<open>
  Claim C6, amended. \<^verbatim>\<open>accept\<close> and \<^verbatim>\<open>discard\<close> set the status they are given on every
  section of that identifier, whatever its status was, and leave the identifiers of the
  list as they were; there is no InvalidTransition. The buttons \<^verbatim>\<open>Accept\<close> and \<^verbatim>\<open>Discard\<close>
  are rendered only for a section that is a draft in the render, so a click cannot reach
  a section that the render shows as accepted or discarded.
\<close>

theorem status_set_as_given:
  "(\<forall>s \<in> set (sections (fst (accept r i st))). id_s s = i \<longrightarrow> status s = Accepted)
   \<and> (\<forall>s \<in> set (sections (discard i st)). id_s s = i \<longrightarrow> status s = Discarded)
   \<and> map id_s (sections (fst (accept r i st))) = map id_s (sections st)
   \<and> map id_s (sections (discard i st)) = map id_s (sections st)
   \<and> (offered r i \<longleftrightarrow> (\<exists>s \<in> set (sections r). id_s s = i \<and> status s = Draft))
   \<and> (\<not> offered r i \<longrightarrow> click_accept r i st = (st, None) \<and> click_discard r i st = st)"
proof -
  have 1: "\<forall>s \<in> set (sections (fst (accept r i st))). id_s s = i \<longrightarrow> status s = Accepted"
    unfolding accept_sections by (rule set_status_all)
  have 2: "\<forall>s \<in> set (sections (discard i st)). id_s s = i \<longrightarrow> status s = Discarded"
    unfolding discard_sections by (rule set_status_all)
  have 3: "map id_s (sections (fst (accept r i st))) = map id_s (sections st)"
    unfolding accept_sections by simp
  have 4: "map id_s (sections (discard i st)) = map id_s (sections st)"
    unfolding discard_sections by simp
  have 5: "\<not> offered r i \<longrightarrow> click_accept r i st = (st, None) \<and> click_discard r i st = st"
    by (simp add: click_accept_def click_discard_def)
  have 6: "offered r i \<longleftrightarrow> (\<exists>s \<in> set (sections r). id_s s = i \<and> status s = Draft)"
    by (simp add: offered_def)
  from 1 2 3 4 5 6 show ?thesis by blast
qed

text \<open>
  Claim C6, amended, at concrete inputs: the draft \<^verbatim>\<open>b\<close> is accepted, or discarded; no
  button is rendered for the discarded \<^verbatim>\<open>d\<close> and the accepted \<^verbatim>\<open>a\<close>.
\<close>

theorem status_set_as_given_witness:
  "map status (sections (fst (accept shelf ''b'' shelf))) = [Accepted, Accepted, Accepted, Discarded]
   \<and> map status (sections (discard ''b'' shelf)) = [Accepted, Discarded, Accepted, Discarded]
   \<and> offered shelf ''b'' \<and> \<not> offered shelf ''d'' \<and> \<not> offered shelf ''a''
   \<and> click_accept shelf ''d'' shelf = (shelf, None)
   \<and> click_discard shelf ''a'' shelf = shelf"
  using status_set_as_given [of shelf "''d''" shelf] status_set_as_given [of shelf "''a''" shelf]
    shelf_offered shelf_statuses(5,6)
  by blast

section \<open>A failed provider call\<close>

text \<open>
  Claim C7. When the provider call fails, the busy flag and the stop flag are cleared,
  no section is appended to the list or to the database, no timer is set, and the
  auto-advance flag is left as it was. For a whole invocation that sent its request,
  the state afterwards is the state before with the two flags cleared.
\<close>

theorem provider_error_settles:
  "\<not> isBusy (fst (generateNext_settle r new_id (ProviderError e) st))
   \<and> \<not> shouldStop (fst (generateNext_settle r new_id (ProviderError e) st))
   \<and> sections (fst (generateNext_settle r new_id (ProviderError e) st)) = sections st
   \<and> db_sections (fst (generateNext_settle r new_id (ProviderError e) st)) = db_sections st
   \<and> autoAdvance (fst (generateNext_settle r new_id (ProviderError e) st)) = autoAdvance st
   \<and> snd (generateNext_settle r new_id (ProviderError e) st) = None
   \<and> (is_request (snd (generateNext_begin r ov st)) \<longrightarrow>
        generateNext r ov new_id (ProviderError e) st
          = (st\<lparr> isBusy := False, shouldStop := False \<rparr>, None))"
proof -
  have 1: "generateNext_settle r new_id (ProviderError e) st
             = (st\<lparr> isBusy := False, shouldStop := False \<rparr>, None)"
    by (simp add: generateNext_settle_def)
  have 2: "is_request (snd (generateNext_begin r ov st)) \<longrightarrow>
        generateNext r ov new_id (ProviderError e) st
          = (st\<lparr> isBusy := False, shouldStop := False \<rparr>, None)"
    by (simp add: begin_request_iff ready_def generateNext_def finish_def generateNext_begin_def
        generateNext_settle_def Let_def)
  from 2 show ?thesis by (simp add: 1)
qed

text \<open>
  Claim C7 at a concrete input: in auto-advance, with a stop requested while the request
  was in flight.
\<close>

theorem provider_error_settles_witness:
  "is_request (snd (generateNext_begin auto1 None auto1))
   \<and> generateNext auto1 None ''s0'' (ProviderError ''OpenAI error 500'') auto1 = (auto1, None)
   \<and> generateNext_settle auto1 ''s0'' (ProviderError ''OpenAI error 500'')
        (auto1_busy\<lparr> shouldStop := True \<rparr>) = (auto1, None)"
proof -
  have r: "is_request (snd (generateNext_begin auto1 None auto1))"
    by (simp add: begin_request_iff ready_examples)
  have i: "auto1\<lparr> isBusy := False, shouldStop := False \<rparr> = auto1"
    by (simp add: auto1_eq book0_def)
  have s: "generateNext_settle auto1 ''s0'' (ProviderError ''OpenAI error 500'')
        (auto1_busy\<lparr> shouldStop := True \<rparr>) = (auto1, None)"
    by (simp add: generateNext_settle_def auto1_busy_def auto1_eq book0_def)
  from provider_error_settles [of auto1 "''s0''" "''OpenAI error 500''" auto1 None] r i s
  show ?thesis by simp
qed

section \<open>A stop during the delay\<close>

text \<open>
  The stop test of a scheduled check reads \<^verbatim>\<open>shouldStop\<close> of the render that set the
  timer, where it is false: whatever the current state is, a scheduled check does not
  return at its stop test.
\<close>

lemma scheduled_check_never_aborts:
  assumes "generateNext_settle r new_id (Completed text) st0 = (st1, Some tm)
           \<or> accept r i st0 = (st1, Some tm)"
  shows "snd (fire tm st) \<noteq> Aborted"
proof -
  have b: "\<And>ov. snd (generateNext_begin r ov st) \<noteq> Aborted"
    by (simp add: generateNext_begin_def Let_def)
  from assms show ?thesis
  proof
    assume a: "generateNext_settle r new_id (Completed text) st0 = (st1, Some tm)"
    note t = settle_timer [OF a]
    show ?thesis
      by (simp add: fire_def t(1) check_after_generate_eq [OF t(2)] b)
  next
    assume a: "accept r i st0 = (st1, Some tm)"
    note t = accept_timer [OF a]
    show ?thesis
      by (simp add: fire_def t(1) check_after_accept_eq [OF t(2)] b)
  qed
qed

text \<open>
  Claim C8 says that a scheduled continuation check aborts, sending no request, when the
  stop flag was set before it runs, also when it was set during the delay. The code does
  not do so. After \<^verbatim>\<open>generateNext\<close> has set its timer, the user clicks \<^verbatim>\<open>Stop Process\<close>:
  the stop flag is set and auto-advance is off. The check then runs, reads \<^verbatim>\<open>shouldStop\<close>
  of the render that set the timer, and sends the next request, setting the busy flag.
  The same happens to the check that \<^verbatim>\<open>accept\<close> has scheduled.
\<close>

theorem stop_during_delay_ignored:
  "snd (generateNext_settle auto1 ''s0'' (Completed ''Two'') auto1_busy)
     = Some (AfterGenerate auto1 False)
   \<and> auto2_stopped = click_stop auto2 auto2
   \<and> shouldStop auto2_stopped \<and> \<not> autoAdvance auto2_stopped
   \<and> is_request (snd (fire (AfterGenerate auto1 False) auto2_stopped))
   \<and> isBusy (fst (fire (AfterGenerate auto1 False) auto2_stopped))
   \<and> snd (accept draft1 ''s1'' draft1) = Some (AfterAccept draft1)
   \<and> draft1_stopped = click_stop draft1_accepted draft1_accepted
   \<and> shouldStop draft1_stopped \<and> \<not> autoAdvance draft1_stopped
   \<and> is_request (snd (fire (AfterAccept draft1) draft1_stopped))"
proof -
  have 1: "snd (generateNext_settle auto1 ''s0'' (Completed ''Two'') auto1_busy)
             = Some (AfterGenerate auto1 False)"
    by (simp add: settle_auto1)
  have 2: "auto2_stopped = click_stop auto2 auto2"
    by (rule auto2_stopped_def)
  have 3: "shouldStop auto2_stopped" and 4: "\<not> autoAdvance auto2_stopped"
    by (simp_all add: auto2_stopped_eq)
  have 5: "snd (accept draft1 ''s1'' draft1) = Some (AfterAccept draft1)"
    by (simp add: accept_draft1)
  have 6: "draft1_stopped = click_stop draft1_accepted draft1_accepted"
    by (rule draft1_stopped_def)
  have 7: "shouldStop draft1_stopped" and 8: "\<not> autoAdvance draft1_stopped"
    by (simp_all add: draft1_stopped_eq)
  note 9 = fire_generate_examples(3) and 10 = fire_generate_examples(4)
    and 11 = fire_accept_examples(2)
  show ?thesis
    by (intro conjI) (fact 1 2 3 4 5 6 7 8 9 10 11)+
qed

section \<open>The history and the stitched text\<close>







section \<open>Editing a section\<close>

lemma sections_edit:
  "sections (edit i text st) =
     map (\<lambda>s. if id_s s = i then s\<lparr> content := text, heading := parseHeading text \<rparr> else s)
       (sections st)"
  by (simp add: edit_def updateSectionLocal_def merge_update_def)

lemma heading_beta: "parseHeading ''# Beta two'' = ''Beta two''"
  by (simp add: heading_defs)

text \<open>
  Claim C10. \<^verbatim>\<open>edit\<close> keeps the length of the list; at every position the identifier, the
  status, the ordinal and the book are unchanged; a section of the given identifier gets
  the new content and the heading parsed from it, and every other section is unchanged.
  No other state variable changes.
\<close>

theorem edit_frame:
  "length (sections (edit i text st)) = length (sections st)
   \<and> (\<forall>k < length (sections st).
         id_s (sections (edit i text st) ! k) = id_s (sections st ! k)
       \<and> status (sections (edit i text st) ! k) = status (sections st ! k)
       \<and> order (sections (edit i text st) ! k) = order (sections st ! k)
       \<and> bookId_s (sections (edit i text st) ! k) = bookId_s (sections st ! k)
       \<and> (if id_s (sections st ! k) = i
           then content (sections (edit i text st) ! k) = text
              \<and> heading (sections (edit i text st) ! k) = parseHeading text
           else sections (edit i text st) ! k = sections st ! k))
   \<and> (edit i text st)\<lparr> sections := sections st, db_sections := db_sections st \<rparr> = st"
  by (simp add: sections_edit) (simp add: edit_def updateSectionLocal_def)

text \<open>Claim C10 at a concrete input: the second of four sections is edited.\<close>

theorem edit_frame_witness:
  "map content (sections (edit ''b'' ''# Beta two'' shelf)) = [''Alpha'', ''# Beta two'', ''Gamma'', ''Delta'']
   \<and> map heading (sections (edit ''b'' ''# Beta two'' shelf)) = [''Alpha'', ''Beta two'', ''Gamma'', ''Delta'']
   \<and> map status (sections (edit ''b'' ''# Beta two'' shelf)) = [Accepted, Draft, Accepted, Discarded]
   \<and> map order (sections (edit ''b'' ''# Beta two'' shelf)) = [2, 3, 1, 4]
   \<and> map id_s (sections (edit ''b'' ''# Beta two'' shelf)) = [''a'', ''b'', ''c'', ''d'']"
  using edit_frame [of "''b''" "''# Beta two''" shelf]
  by (simp add: sections_edit heading_beta shelf_def sec_a_def sec_b_def sec_c_def sec_d_def)

end
